theory Spec2Isabelle
  imports Complex_Main
begin

section \<open>Data model (types.ts)\<close>

text \<open>
  JavaScript numbers are read as real numbers: arithmetic is exact, there is no NaN and no
  Infinity, and there is no rounding except in \<open>productionTick_rounded\<close>, where the
  rounding of the progress increment is a parameter. Where the source divides by a
  catalog duration, the value that JavaScript gives for a zero divisor is written out in
  the model. An upgrade level is a
  count that starts at 0 and only grows by one, so it is a natural number. Field names
  carry the name of their interface where two interfaces share a name (\<open>id\<close>, \<open>name\<close>)
  or where the name is reserved (\<open>type\<close>, \<open>value\<close>, \<open>text\<close>).
\<close>

datatype upgrade_type = Views | Money | Subscribers

record Upgrade =
  upgrade_id :: string
  upgrade_name :: string
  description :: string
  baseCost :: real
  multiplier :: real
  upgrade_type :: upgrade_type
  upgrade_value :: real
  level :: nat
  icon :: string

record ContentType =
  content_id :: string
  content_name :: string
  baseViews :: real
  baseMoney :: real
  duration :: real
  unlockedAtSubs :: real

record GameState =
  views :: real
  subscribers :: real
  money :: real
  totalViews :: real
  totalMoney :: real
  upgrades :: "Upgrade list"
  unlockedContentTypes :: "string list"
  lastSaved :: real

section \<open>Component state of App (App.tsx)\<close>

record ActiveVideo =
  video_id :: string
  progress :: real
  startTime :: real

text \<open>
  The text of a notification is kept as its parts: the viral alert, or the publication
  message with its viral prefix flag and the floored number of views it prints.
\<close>

datatype message = ViralAlert | VideoPublished bool int

record Notification =
  notification_id :: nat
  notification_text :: message

record App =
  gameState :: GameState
  activeVideo :: "ActiveVideo option"
  notifications :: "Notification list"
  nextNotificationId :: nat
  isViral :: bool
  viralTimer :: int

datatype js_error = TypeError

section \<open>Array helpers\<close>

text \<open>\<open>Array.prototype.find\<close>: the first element that satisfies the predicate.\<close>

fun find_first :: "('a \<Rightarrow> bool) \<Rightarrow> 'a list \<Rightarrow> 'a option" where
  "find_first P [] = None"
| "find_first P (x # xs) = (if P x then Some x else find_first P xs)"

text \<open>
  \<open>Array.prototype.findIndex\<close>: the index of the first element that satisfies the
  predicate; \<open>None\<close> stands for JavaScript's \<open>-1\<close>.
\<close>

fun findIndex :: "('a \<Rightarrow> bool) \<Rightarrow> 'a list \<Rightarrow> nat option" where
  "findIndex P [] = None"
| "findIndex P (x # xs) =
     (if P x then Some 0
      else (case findIndex P xs of None \<Rightarrow> None | Some i \<Rightarrow> Some (Suc i)))"

section \<open>Initial state (App.tsx, lines 38-57)\<close>

definition defaultGameState :: "Upgrade list \<Rightarrow> real \<Rightarrow> GameState" where
  "defaultGameState INITIAL_UPGRADES now =
     \<lparr> views = 0, subscribers = 0, money = 0, totalViews = 0, totalMoney = 0,
       upgrades = INITIAL_UPGRADES, unlockedContentTypes = [''vlog''],
       lastSaved = now \<rparr>"

text \<open>The values that \<open>JSON.parse\<close> can return.\<close>

datatype json =
  JNull | JBool bool | JNumber real | JString string | JArray "json list"
  | JObject "(string \<times> json) list"

text \<open>
  What the initializer hands to \<open>useState\<close>: the value that \<open>JSON.parse\<close> returned,
  which the source takes as the \<open>GameState\<close> without looking at it, or the fixed
  initial state.
\<close>

datatype loaded = Parsed json | Initial GameState

text \<open>
  The initializer of \<open>gameState\<close>. \<open>saved\<close> is what \<open>localStorage.getItem\<close> returned
  (\<open>None\<close> for \<open>null\<close>); \<open>JSON_parse\<close> is the platform's parser, \<open>None\<close> when it
  throws. \<open>INITIAL_UPGRADES\<close> (constants.ts) and the clock are parameters.
\<close>

definition initialGameState ::
  "(string \<Rightarrow> json option) \<Rightarrow> Upgrade list \<Rightarrow> real \<Rightarrow> string option \<Rightarrow> loaded" where
  "initialGameState JSON_parse INITIAL_UPGRADES now saved =
     (case saved of
        None \<Rightarrow> Initial (defaultGameState INITIAL_UPGRADES now)
      | Some str \<Rightarrow>
          if str = [] then Initial (defaultGameState INITIAL_UPGRADES now)
          else (case JSON_parse str of
                  Some parsed \<Rightarrow> Parsed parsed
                | None \<Rightarrow> Initial (defaultGameState INITIAL_UPGRADES now)))"

section \<open>Notifications (App.tsx, lines 68-74)\<close>

definition addNotification :: "message \<Rightarrow> App \<Rightarrow> App" where
  "addNotification txt s =
     s\<lparr> notifications :=
          notifications s @ [\<lparr> notification_id = nextNotificationId s, notification_text = txt \<rparr>],
        nextNotificationId := nextNotificationId s + 1 \<rparr>"

text \<open>The removal that \<open>addNotification\<close> schedules for 3000 ms later.\<close>

definition expireNotification :: "nat \<Rightarrow> App \<Rightarrow> App" where
  "expireNotification n s =
     s\<lparr> notifications := filter (\<lambda>x. notification_id x \<noteq> n) (notifications s) \<rparr>"

section \<open>Passive rates (App.tsx, lines 82-99)\<close>

definition getPassiveViews :: "GameState \<Rightarrow> real" where
  "getPassiveViews g =
     foldl (\<lambda>acc u. acc + upgrade_value u * real (level u)) 0
       (filter (\<lambda>u. upgrade_type u = Views) (upgrades g))"

definition getPassiveSubs :: "GameState \<Rightarrow> real" where
  "getPassiveSubs g =
     foldl (\<lambda>acc u. acc + upgrade_value u * real (level u)) 0
       (filter (\<lambda>u. upgrade_type u = Subscribers) (upgrades g))"

definition getMoneyMultiplier :: "GameState \<Rightarrow> real" where
  "getMoneyMultiplier g =
     foldl (\<lambda>acc u. acc + upgrade_value u * real (level u)) 1
       (filter (\<lambda>u. upgrade_type u = Money) (upgrades g))"

section \<open>Passive generation loop (App.tsx, lines 102-116)\<close>

definition passiveTick :: "App \<Rightarrow> App" where
  "passiveTick s =
     (let passiveViews = getPassiveViews (gameState s) / 10;
          passiveSubs = getPassiveSubs (gameState s) / 10;
          prev = gameState s
      in s\<lparr> gameState :=
              prev\<lparr> views := views prev + passiveViews,
                    totalViews := totalViews prev + passiveViews,
                    subscribers := subscribers prev + passiveSubs \<rparr> \<rparr>)"

section \<open>Manual editing (App.tsx, lines 144-155)\<close>

text \<open>
  \<open>0.5 / contentType.duration\<close> is \<open>Infinity\<close> for a zero duration, and the minimum of
  \<open>Infinity\<close> and 99.9 is 99.9.
\<close>

definition manualEdit :: "ContentType list \<Rightarrow> App \<Rightarrow> App" where
  "manualEdit CONTENT_TYPES s =
     (case activeVideo s of
        None \<Rightarrow> s
      | Some prev \<Rightarrow>
          (case find_first (\<lambda>c. content_id c = video_id prev) CONTENT_TYPES of
             None \<Rightarrow> s
           | Some contentType \<Rightarrow>
               if duration contentType = 0
               then s\<lparr> activeVideo := Some (prev\<lparr> progress := 99.9 \<rparr>) \<rparr>
               else
                 (let reductionPercent = (0.5 / duration contentType) * 100
                  in s\<lparr> activeVideo :=
                          Some (prev\<lparr> progress := min (progress prev + reductionPercent) 99.9 \<rparr>) \<rparr>)))"

section \<open>Video production loop (App.tsx, lines 158-199)\<close>

text \<open>
  One run of the interval callback. The local \<open>progress\<close> computed from \<open>Date.now()\<close> is
  never read in the source and is left out. \<open>0.1 / contentType.duration\<close> is \<open>Infinity\<close>
  for a zero duration, and the minimum of \<open>Infinity\<close> and 100 is 100.
\<close>

definition productionTick :: "ContentType list \<Rightarrow> App \<Rightarrow> App" where
  "productionTick CONTENT_TYPES s =
     (case activeVideo s of
        None \<Rightarrow> s
      | Some prev \<Rightarrow>
          (case find_first (\<lambda>c. content_id c = video_id prev) CONTENT_TYPES of
             None \<Rightarrow> s
           | Some contentType \<Rightarrow>
               if progress prev \<ge> 100 then
                 (let boost = (if isViral s then 3 else 1);
                      viewsGained =
                        baseViews contentType * (1 + getPassiveViews (gameState s) * 0.1) * boost;
                      moneyGained =
                        baseMoney contentType * getMoneyMultiplier (gameState s) * boost;
                      subsGained =
                        max 0 ((viewsGained * 0.05) * (1 + getPassiveSubs (gameState s) * 0.1));
                      prevGame = gameState s;
                      s1 = s\<lparr> gameState :=
                              prevGame\<lparr> views := views prevGame + viewsGained,
                                        totalViews := totalViews prevGame + viewsGained,
                                        money := money prevGame + moneyGained,
                                        totalMoney := totalMoney prevGame + moneyGained,
                                        subscribers := subscribers prevGame + subsGained \<rparr> \<rparr>;
                      s2 = addNotification (VideoPublished (isViral s) \<lfloor>viewsGained\<rfloor>) s1
                  in s2\<lparr> activeVideo := None \<rparr>)
               else if duration contentType = 0
               then s\<lparr> activeVideo := Some (prev\<lparr> progress := 100 \<rparr>) \<rparr>
               else
                 (let timeStep = 0.1;
                      autoIncrement = (timeStep / duration contentType) * 100
                  in s\<lparr> activeVideo :=
                          Some (prev\<lparr> progress := min (progress prev + autoIncrement) 100 \<rparr>) \<rparr>)))"

text \<open>
  The same tick with the rounding of double arithmetic made explicit where the number of
  ticks of a run depends on it, the increment of lines 192-194: the literal 0.1 and the
  result of every division, multiplication and addition are passed through \<open>rnd\<close>, the
  rounding to a representable number; \<open>Math.min\<close> is exact. The other branches are
  those of \<open>productionTick\<close>. With the identity for \<open>rnd\<close> it is \<open>productionTick\<close>.
\<close>

definition autoIncrement_rounded :: "(real \<Rightarrow> real) \<Rightarrow> real \<Rightarrow> real" where
  "autoIncrement_rounded rnd d = rnd (rnd (rnd 0.1 / d) * 100)"

definition productionTick_rounded :: "(real \<Rightarrow> real) \<Rightarrow> ContentType list \<Rightarrow> App \<Rightarrow> App" where
  "productionTick_rounded rnd CONTENT_TYPES s =
     (case activeVideo s of
        None \<Rightarrow> productionTick CONTENT_TYPES s
      | Some prev \<Rightarrow>
          (case find_first (\<lambda>c. content_id c = video_id prev) CONTENT_TYPES of
             None \<Rightarrow> productionTick CONTENT_TYPES s
           | Some contentType \<Rightarrow>
               if progress prev \<ge> 100 \<or> duration contentType = 0
               then productionTick CONTENT_TYPES s
               else
                 (let autoIncrement = autoIncrement_rounded rnd (duration contentType)
                  in s\<lparr> activeVideo :=
                          Some (prev\<lparr> progress := min (rnd (progress prev + autoIncrement)) 100 \<rparr>) \<rparr>)))"

section \<open>Starting a video (App.tsx, lines 201-204 and 545-573)\<close>

definition startVideo :: "string \<Rightarrow> real \<Rightarrow> App \<Rightarrow> App" where
  "startVideo ident now s =
     (if activeVideo s \<noteq> None then s
      else s\<lparr> activeVideo := Some \<lparr> video_id = ident, progress = 0, startTime = now \<rparr> \<rparr>)"

definition isLocked :: "GameState \<Rightarrow> ContentType \<Rightarrow> bool" where
  "isLocked g t = (subscribers g < unlockedAtSubs t)"

text \<open>
  A click on the RECORD control of the library card of catalog entry \<open>t\<close>: the button is
  rendered only when the entry is not locked, it is disabled while a video is active, and
  otherwise its handler calls \<open>startVideo\<close> with the entry's id.
\<close>

definition clickRecord :: "ContentType \<Rightarrow> real \<Rightarrow> App \<Rightarrow> App" where
  "clickRecord t now s =
     (if isLocked (gameState s) t then s
      else if activeVideo s \<noteq> None then s
      else startVideo (content_id t) now s)"

section \<open>Buying an upgrade (App.tsx, lines 206-224)\<close>

definition upgradeCost :: "Upgrade \<Rightarrow> int" where
  "upgradeCost u = \<lfloor>baseCost u * multiplier u ^ level u\<rfloor>"

text \<open>
  When no upgrade has the id, \<open>findIndex\<close> gives \<open>-1\<close>, \<open>prev.upgrades[-1]\<close> is
  \<open>undefined\<close> and reading \<open>upgrade.baseCost\<close> throws a \<open>TypeError\<close>. The function
  returns no value; the result of the model is the next state.
\<close>

definition buyUpgrade :: "string \<Rightarrow> App \<Rightarrow> js_error + App" where
  "buyUpgrade upgradeId s =
     (let prev = gameState s in
      case findIndex (\<lambda>u. upgrade_id u = upgradeId) (upgrades prev) of
        None \<Rightarrow> Inl TypeError
      | Some upgradeIndex \<Rightarrow>
          (let upgrade = upgrades prev ! upgradeIndex;
               cost = upgradeCost upgrade
           in if money prev \<ge> real_of_int cost then
                Inr (s\<lparr> gameState :=
                         prev\<lparr> money := money prev - real_of_int cost,
                               upgrades := (upgrades prev)
                                 [upgradeIndex := upgrade\<lparr> level := level upgrade + 1 \<rparr>] \<rparr> \<rparr>)
              else Inr s))"

section \<open>Score service (server.ts, lines 9 and 39-44)\<close>












section \<open>Example values\<close>

definition cameraUpgrade :: Upgrade where
  "cameraUpgrade =
     \<lparr> upgrade_id = ''camera'', upgrade_name = ''Camera'', description = '''',
       baseCost = 10, multiplier = 1.15, upgrade_type = Views, upgrade_value = 1,
       level = 0, icon = ''Camera'' \<rparr>"

definition cheapUpgrade :: Upgrade where
  "cheapUpgrade =
     \<lparr> upgrade_id = ''mic'', upgrade_name = ''Mic'', description = '''',
       baseCost = 1, multiplier = 1.1, upgrade_type = Subscribers, upgrade_value = 1,
       level = 0, icon = ''Mic'' \<rparr>"

definition vlog :: ContentType where
  "vlog =
     \<lparr> content_id = ''vlog'', content_name = ''Vlog'', baseViews = 100, baseMoney = 5,
       duration = 60, unlockedAtSubs = 0 \<rparr>"

definition podcast :: ContentType where
  "podcast =
     \<lparr> content_id = ''podcast'', content_name = ''Podcast'', baseViews = 500, baseMoney = 20,
       duration = 120, unlockedAtSubs = 50 \<rparr>"

definition emptyGame :: "Upgrade list \<Rightarrow> GameState" where
  "emptyGame us = defaultGameState us 0"

definition idleApp :: "GameState \<Rightarrow> App" where
  "idleApp g =
     \<lparr> gameState = g, activeVideo = None, notifications = [], nextNotificationId = 0,
       isViral = False, viralTimer = 0 \<rparr>"

text \<open>
  The state that the completion branch of the production loop (lines 172-188) commits
  for catalog entry \<open>ct\<close>: the ledger credited once, one notification appended and no
  active video.
\<close>

definition published :: "ContentType \<Rightarrow> App \<Rightarrow> App" where
  "published ct s =
     (let g = gameState s;
          boost = (if isViral s then 3 else 1);
          viewsGained = baseViews ct * (1 + getPassiveViews g * 0.1) * boost;
          moneyGained = baseMoney ct * getMoneyMultiplier g * boost;
          subsGained = max 0 (viewsGained * 0.05 * (1 + getPassiveSubs g * 0.1))
      in s\<lparr> gameState := g\<lparr> views := views g + viewsGained,
                              totalViews := totalViews g + viewsGained,
                              money := money g + moneyGained,
                              totalMoney := totalMoney g + moneyGained,
                              subscribers := subscribers g + subsGained \<rparr>,
             notifications := notifications s @
               [\<lparr> notification_id = nextNotificationId s,
                  notification_text = VideoPublished (isViral s) \<lfloor>viewsGained\<rfloor> \<rparr>],
             nextNotificationId := nextNotificationId s + 1,
             activeVideo := None \<rparr>)"

definition freshApp :: App where
  "freshApp = idleApp (emptyGame [cameraUpgrade])"

definition richApp :: App where
  "richApp = idleApp ((emptyGame [cameraUpgrade])\<lparr> money := 25 \<rparr>)"

definition poorApp :: App where
  "poorApp = idleApp ((emptyGame [cameraUpgrade])\<lparr> money := 3 \<rparr>)"

definition finishedVlog :: App where
  "finishedVlog =
     (idleApp ((emptyGame [cameraUpgrade\<lparr> level := 10 \<rparr>])\<lparr> money := 2 \<rparr>))
       \<lparr> activeVideo := Some \<lparr> video_id = ''vlog'', progress = 100, startTime = 0 \<rparr>,
         isViral := True \<rparr>"

definition editingVlog :: App where
  "editingVlog =
     (idleApp (emptyGame [cameraUpgrade]))
       \<lparr> activeVideo := Some \<lparr> video_id = ''vlog'', progress = 99.5, startTime = 0 \<rparr> \<rparr>"

definition viralIdle :: App where
  "viralIdle =
     (idleApp ((emptyGame [cameraUpgrade\<lparr> level := 10 \<rparr>])\<lparr> views := 7 \<rparr>))\<lparr> isViral := True \<rparr>"

text \<open>
  A rounding to the nearest multiple of \<open>2 ^ (-40)\<close>: an example of a rounding whose
  error is bounded on every input.
\<close>

definition round_to_grid :: "real \<Rightarrow> real" where
  "round_to_grid x = real_of_int \<lfloor>x * 2 ^ 40 + 1 / 2\<rfloor> / 2 ^ 40"

text \<open>
  A stand-in for \<open>JSON.parse\<close> on four texts: it returns what \<open>JSON.parse\<close> returns
  for \<open>null\<close>, \<open>{}\<close> and \<open>true\<close>, and fails on every other text, as \<open>JSON.parse\<close>
  does on \<open>{views:\<close>.
\<close>

definition literalParse :: "string \<Rightarrow> json option" where
  "literalParse str =
     (if str = ''null'' then Some JNull
      else if str = ''{}'' then Some (JObject [])
      else if str = ''true'' then Some (JBool True)
      else None)"


section \<open>Facts about the array helpers\<close>

lemma findIndex_Some:
  "findIndex P xs = Some i \<Longrightarrow> i < length xs \<and> P (xs ! i) \<and> (\<forall>j<i. \<not> P (xs ! j))"
proof (induction xs arbitrary: i)
  case Nil
  then show ?case by simp
next
  case (Cons x xs)
  show ?case
  proof (cases "P x")
    case True
    with Cons.prems show ?thesis by simp
  next
    case False
    with Cons.prems obtain k where k: "findIndex P xs = Some k" "i = Suc k"
      by (auto split: option.splits)
    from Cons.IH[OF k(1)] False k(2) show ?thesis
      by (auto simp: less_Suc_eq_0_disj)
  qed
qed

lemma findIndex_None: "findIndex P xs = None \<longleftrightarrow> (\<forall>x\<in>set xs. \<not> P x)"
  by (induction xs) (auto split: option.splits)

lemma findIndex_known:
  assumes "\<exists>u\<in>set xs. P u"
  obtains i where "findIndex P xs = Some i"
  using assms findIndex_None[of P xs] by (cases "findIndex P xs") auto

section \<open>The passive rates as sums\<close>

lemma foldl_add_sum_list:
  "foldl (\<lambda>acc u. acc + f u) a xs = a + sum_list (map f xs)"
  for a :: real
  by (induction xs arbitrary: a) simp_all

lemma getPassiveViews_sum:
  "getPassiveViews g =
     (\<Sum>u\<leftarrow>filter (\<lambda>u. upgrade_type u = Views) (upgrades g). upgrade_value u * real (level u))"
  by (simp add: getPassiveViews_def foldl_add_sum_list)

lemma getPassiveSubs_sum:
  "getPassiveSubs g =
     (\<Sum>u\<leftarrow>filter (\<lambda>u. upgrade_type u = Subscribers) (upgrades g).
        upgrade_value u * real (level u))"
  by (simp add: getPassiveSubs_def foldl_add_sum_list)

lemma getMoneyMultiplier_sum:
  "getMoneyMultiplier g =
     1 + (\<Sum>u\<leftarrow>filter (\<lambda>u. upgrade_type u = Money) (upgrades g).
            upgrade_value u * real (level u))"
  by (simp add: getMoneyMultiplier_def foldl_add_sum_list)

lemma rates_freshApp:
  "getPassiveViews (gameState freshApp) = 0"
  "getPassiveSubs (gameState freshApp) = 0"
  "getMoneyMultiplier (gameState freshApp) = 1"
  by (simp_all add: freshApp_def idleApp_def emptyGame_def defaultGameState_def
        cameraUpgrade_def getPassiveViews_def getPassiveSubs_def getMoneyMultiplier_def)

lemma rates_finishedVlog:
  "getPassiveViews (gameState (finishedVlog\<lparr> isViral := b \<rparr>)) = 10"
  "getPassiveSubs (gameState (finishedVlog\<lparr> isViral := b \<rparr>)) = 0"
  "getMoneyMultiplier (gameState (finishedVlog\<lparr> isViral := b \<rparr>)) = 1"
  by (simp_all add: finishedVlog_def idleApp_def emptyGame_def defaultGameState_def
        cameraUpgrade_def getPassiveViews_def getPassiveSubs_def getMoneyMultiplier_def)

lemma rates_viralIdle:
  "getPassiveViews (gameState (viralIdle\<lparr> isViral := b \<rparr>)) = 10"
  "getPassiveSubs (gameState (viralIdle\<lparr> isViral := b \<rparr>)) = 0"
  by (simp_all add: viralIdle_def idleApp_def emptyGame_def defaultGameState_def
        cameraUpgrade_def getPassiveViews_def getPassiveSubs_def)

section \<open>Facts about the production loop\<close>

lemma productionTick_complete:
  assumes "activeVideo s = Some av"
    and "find_first (\<lambda>c. content_id c = video_id av) CT = Some ct"
    and "100 \<le> progress av"
  shows "productionTick CT s = published ct s"
  using assms by (simp add: productionTick_def published_def addNotification_def Let_def)

lemma productionTick_advance:
  assumes "activeVideo s = Some av"
    and "find_first (\<lambda>c. content_id c = video_id av) CT = Some ct"
    and "progress av < 100" and "duration ct \<noteq> 0"
  shows "productionTick CT s =
     s\<lparr> activeVideo := Some (av\<lparr> progress := min (progress av + 0.1 / duration ct * 100) 100 \<rparr>) \<rparr>"
  using assms by (simp add: productionTick_def Let_def)

lemma productionTick_idle: "activeVideo s = None \<Longrightarrow> productionTick CT s = s"
  by (simp add: productionTick_def)

lemma productionTick_idle_funpow:
  "activeVideo s = None \<Longrightarrow> (productionTick CT ^^ k) s = s"
  by (induction k) (simp_all add: productionTick_idle)

lemma productionTick_below_100:
  assumes "activeVideo s = Some av" and "progress av < 100"
  shows "activeVideo (productionTick CT s) \<noteq> None \<and>
         gameState (productionTick CT s) = gameState s \<and>
         notifications (productionTick CT s) = notifications s"
  using assms by (simp add: productionTick_def Let_def split: option.splits)

lemma published_idle: "published ct (s\<lparr> activeVideo := x \<rparr>) = published ct s"
  by (simp add: published_def Let_def)

lemma ticks_progress:
  assumes av: "activeVideo s = Some av" "progress av = 0"
    and ct: "find_first (\<lambda>c. content_id c = video_id av) CT = Some ct"
    and n: "0 < n" "duration ct = real n / 10"
  shows "k \<le> n \<Longrightarrow>
     (productionTick CT ^^ k) s =
       s\<lparr> activeVideo := Some (av\<lparr> progress := 100 * real k / real n \<rparr>) \<rparr>"
proof (induction k)
  case 0
  then show ?case using av by simp
next
  case (Suc k)
  let ?sk = "s\<lparr> activeVideo := Some (av\<lparr> progress := 100 * real k / real n \<rparr>) \<rparr>"
  let ?avk = "av\<lparr> progress := 100 * real k / real n \<rparr>"
  from Suc have sk: "(productionTick CT ^^ k) s = ?sk" by simp
  have lt: "real k < real n" using Suc.prems by simp
  have p: "progress ?avk < 100" using lt n(1) by (simp add: divide_simps)
  have d: "duration ct \<noteq> 0" using n by simp
  have le: "100 * real k / real n + 100 / real n \<le> 100"
  proof -
    have "100 * real k / real n + 100 / real n = 100 * (real k + 1) / real n"
      by (simp add: add_divide_distrib distrib_left)
    also have "\<dots> \<le> 100" using lt n(1) Suc.prems by (simp add: divide_simps)
    finally show ?thesis .
  qed
  have "productionTick CT ?sk =
      ?sk\<lparr> activeVideo := Some (?avk\<lparr> progress := min (progress ?avk + 0.1 / duration ct * 100) 100 \<rparr>) \<rparr>"
    by (rule productionTick_advance[where ct = ct]) (use ct p d in simp_all)
  also have "\<dots> = s\<lparr> activeVideo := Some (av\<lparr> progress := 100 * real (Suc k) / real n \<rparr>) \<rparr>"
    using le by (simp add: n(2) min_def add_divide_distrib distrib_left add.commute)
  finally show ?case using sk by simp
qed

lemma published_vlog_freshApp:
  "published vlog freshApp =
     (idleApp ((emptyGame [cameraUpgrade])
                 \<lparr> views := 100, subscribers := 5, money := 5, totalViews := 100,
                   totalMoney := 5 \<rparr>))
       \<lparr> notifications := [\<lparr> notification_id = 0, notification_text = VideoPublished False 100 \<rparr>],
         nextNotificationId := 1 \<rparr>"
  unfolding published_def Let_def rates_freshApp
  by (simp add: vlog_def) (simp add: freshApp_def idleApp_def emptyGame_def defaultGameState_def)

section \<open>Facts about the production loop under rounding\<close>

lemma productionTick_rounded_exact:
  "productionTick_rounded (\<lambda>x. x) CT s = productionTick CT s"
  by (simp add: productionTick_rounded_def productionTick_def autoIncrement_rounded_def Let_def
        split: option.splits)

lemma productionTick_rounded_exact_funpow:
  "(productionTick_rounded (\<lambda>x. x) CT ^^ k) s = (productionTick CT ^^ k) s"
  by (induction k) (simp_all add: productionTick_rounded_exact)

lemma productionTick_rounded_complete:
  assumes "activeVideo s = Some av"
    and "find_first (\<lambda>c. content_id c = video_id av) CT = Some ct"
    and "100 \<le> progress av"
  shows "productionTick_rounded rnd CT s = published ct s"
  using assms productionTick_complete[OF assms] by (simp add: productionTick_rounded_def)

lemma productionTick_rounded_advance:
  assumes "activeVideo s = Some av"
    and "find_first (\<lambda>c. content_id c = video_id av) CT = Some ct"
    and "progress av < 100" and "duration ct \<noteq> 0"
  shows "productionTick_rounded rnd CT s =
     s\<lparr> activeVideo :=
          Some (av\<lparr> progress :=
                  min (rnd (progress av + autoIncrement_rounded rnd (duration ct))) 100 \<rparr>) \<rparr>"
  using assms by (simp add: productionTick_rounded_def Let_def)

lemma productionTick_rounded_idle_funpow:
  "activeVideo s = None \<Longrightarrow> (productionTick_rounded rnd CT ^^ k) s = s"
  by (induction k) (simp_all add: productionTick_rounded_def productionTick_idle)

lemma autoIncrement_rounded_error:
  assumes E: "\<forall>x. \<bar>x\<bar> \<le> 256 \<longrightarrow> \<bar>rnd x - x\<bar> \<le> e"
    and e: "e \<le> 1 / 20" and n: "0 < n" and d: "d = real n / 10"
  shows "\<bar>autoIncrement_rounded rnd d - 100 / real n\<bar> \<le> 1101 * e"
proof -
  have n1: "1 \<le> real n" using n by simp
  define a where "a = rnd (1/10) - 1/10"
  have a: "\<bar>a\<bar> \<le> e" unfolding a_def using E by simp
  define x1 where "x1 = rnd (1/10) / d"
  have x1: "x1 = 1 / real n + 10 * a / real n"
    unfolding x1_def a_def d using n by (simp add: field_simps)
  have an: "\<bar>10 * a / real n\<bar> \<le> 10 * e"
  proof -
    have "\<bar>10 * a / real n\<bar> = 10 * \<bar>a\<bar> / real n" using n by (simp add: abs_mult)
    also have "\<dots> \<le> 10 * \<bar>a\<bar>"
    proof -
      have "\<bar>a\<bar> * 1 \<le> \<bar>a\<bar> * real n" using n1 by (intro mult_left_mono) simp_all
      then show ?thesis using n by (simp add: field_simps)
    qed
    also have "\<dots> \<le> 10 * e" using a by simp
    finally show ?thesis .
  qed
  have inv: "\<bar>1 / real n\<bar> \<le> 1" using n1 by simp
  have x1b: "\<bar>x1\<bar> \<le> 3 / 2"
  proof -
    have "\<bar>x1\<bar> \<le> \<bar>1 / real n\<bar> + \<bar>10 * a / real n\<bar>" unfolding x1 by (rule abs_triangle_ineq)
    also have "\<dots> \<le> 1 + 10 * e" using inv an by linarith
    also have "\<dots> \<le> 3 / 2" using e by simp
    finally show ?thesis .
  qed
  define b where "b = rnd x1 - x1"
  have b: "\<bar>b\<bar> \<le> e" unfolding b_def using E x1b by simp
  define x3 where "x3 = rnd x1 * 100"
  have r: "rnd x1 = x1 + b" unfolding b_def by simp
  have "x3 = (x1 + b) * 100"
    by (simp only: x3_def r)
  also have "\<dots> = (1 / real n + 10 * a / real n + b) * 100"
    by (simp only: x1)
  also have "\<dots> = 100 / real n + 1000 * a / real n + 100 * b"
    by (simp add: algebra_simps)
  finally have x3: "x3 = 100 / real n + 1000 * a / real n + 100 * b" .
  have x3b: "\<bar>x3\<bar> \<le> 256"
  proof -
    have "\<bar>rnd x1\<bar> \<le> \<bar>x1\<bar> + \<bar>b\<bar>" unfolding b_def by linarith
    then have "\<bar>rnd x1\<bar> \<le> 2" using x1b b e by linarith
    then show ?thesis unfolding x3_def by (simp add: abs_mult)
  qed
  define c where "c = rnd x3 - x3"
  have c: "\<bar>c\<bar> \<le> e" unfolding c_def using E x3b by simp
  have "autoIncrement_rounded rnd d = rnd x3"
    by (simp add: autoIncrement_rounded_def x3_def x1_def)
  then have "autoIncrement_rounded rnd d - 100 / real n = 100 * (10 * a / real n) + 100 * b + c"
    using x3 c_def by simp
  moreover have "\<bar>100 * (10 * a / real n) + 100 * b + c\<bar> \<le> 1101 * e"
    using an b c by linarith
  ultimately show ?thesis by simp
qed

lemma round_to_grid_error: "\<bar>round_to_grid x - x\<bar> \<le> 1 / 2 ^ 41"
proof -
  let ?y = "x * 2 ^ 40 + 1 / 2"
  have l: "real_of_int \<lfloor>?y\<rfloor> \<le> ?y" by (rule of_int_floor_le)
  have u: "?y < real_of_int \<lfloor>?y\<rfloor> + 1" by linarith
  have "\<bar>real_of_int \<lfloor>?y\<rfloor> - x * 2 ^ 40\<bar> \<le> 1 / 2" using l u by linarith
  then have "\<bar>real_of_int \<lfloor>?y\<rfloor> - x * 2 ^ 40\<bar> / 2 ^ 40 \<le> (1 / 2) / 2 ^ 40"
    by (simp add: divide_right_mono)
  moreover have "\<bar>real_of_int \<lfloor>?y\<rfloor> - x * 2 ^ 40\<bar> / 2 ^ 40 = \<bar>round_to_grid x - x\<bar>"
    by (simp add: round_to_grid_def field_simps)
  ultimately show ?thesis by simp
qed

lemma rounding_budget:
  assumes E: "\<forall>x. \<bar>x\<bar> \<le> 256 \<longrightarrow> \<bar>rnd x - x\<bar> \<le> e"
    and S: "1102 * e * real n * real (n + 1) \<le> 100" and n: "0 < n"
  shows "0 \<le> e" and "e \<le> 1 / 20" and "real (n + 1) * (1102 * e) \<le> 100 / real n"
    and "\<And>j. j < n \<Longrightarrow> real j * (1102 * e) < 100 / real n"
proof -
  have "\<bar>(0::real)\<bar> \<le> 256" by simp
  with E have "\<bar>rnd 0 - 0\<bar> \<le> e" by blast
  then show e0: "0 \<le> e" by linarith
  have n1: "1 \<le> real n" using n by simp
  have "1102 * e * 1 \<le> 1102 * e * real n" using n1 e0 by (intro mult_left_mono) simp_all
  moreover have "1102 * e * real n * 2 \<le> 1102 * e * real n * real (n + 1)"
    using n1 e0 by (intro mult_left_mono) simp_all
  ultimately have "1102 * e * 2 \<le> 100" using S by linarith
  then show "e \<le> 1 / 20" by simp
  have "real (n + 1) * (1102 * e) * real n \<le> 100" using S by (simp add: mult.commute mult.left_commute)
  then show b: "real (n + 1) * (1102 * e) \<le> 100 / real n"
    using n by (simp add: pos_le_divide_eq)
  fix j assume j: "j < n"
  have pos: "0 < 100 / real n" using n by simp
  have "real j + 2 \<le> real (n + 1)" using j by simp
  then have "(real j + 2) * (1102 * e) \<le> real (n + 1) * (1102 * e)"
    using e0 by (intro mult_right_mono) simp_all
  then have "real j * (1102 * e) + 2 * (1102 * e) \<le> 100 / real n"
    using b by (simp add: algebra_simps)
  then show "real j * (1102 * e) < 100 / real n" using e0 pos
    by (cases "e = 0") auto
qed

lemma rounded_ticks_progress:
  assumes av: "activeVideo s = Some av" "progress av = 0"
    and ct: "find_first (\<lambda>c. content_id c = video_id av) CT = Some ct"
    and n: "0 < n" "duration ct = real n / 10"
    and E: "\<forall>x. \<bar>x\<bar> \<le> 256 \<longrightarrow> \<bar>rnd x - x\<bar> \<le> e"
    and S: "1102 * e * real n * real (n + 1) \<le> 100"
  shows "k \<le> n \<Longrightarrow>
     \<exists>p. (productionTick_rounded rnd CT ^^ k) s = s\<lparr> activeVideo := Some (av\<lparr> progress := p \<rparr>) \<rparr> \<and>
         \<bar>p - 100 * real k / real n\<bar> \<le> real k * (1102 * e) \<and> p \<le> 100 \<and>
         (k < n \<longrightarrow> p < 100)"
proof (induction k)
  case 0
  have "s = s\<lparr> activeVideo := Some (av\<lparr> progress := 0 \<rparr>) \<rparr>" using av by simp
  then show ?case using n(1) by auto
next
  case (Suc k)
  note B = rounding_budget[OF E S n(1)]
  let ?D = "1102 * e"
  let ?inc = "autoIncrement_rounded rnd (duration ct)"
  from Suc obtain p where
    sk: "(productionTick_rounded rnd CT ^^ k) s = s\<lparr> activeVideo := Some (av\<lparr> progress := p \<rparr>) \<rparr>"
    and pe: "\<bar>p - 100 * real k / real n\<bar> \<le> real k * ?D"
    and p100: "p \<le> 100" and plt: "p < 100"
    by auto
  have kn: "k < n" using Suc.prems by simp
  have d: "duration ct \<noteq> 0" using n by simp
  have ie: "\<bar>?inc - 100 / real n\<bar> \<le> 1101 * e"
    by (rule autoIncrement_rounded_error[OF E B(2) n])
  have frac0: "0 \<le> 100 * real k / real n" by simp
  have inv: "100 / real n \<le> 100" using n(1) by (simp add: divide_le_eq)
  have kD: "real k * ?D < 100 / real n" by (rule B(4)[OF kn])
  have kD0: "0 \<le> real k * ?D" using B(1) by simp
  have range: "\<bar>p + ?inc\<bar> \<le> 256" using pe p100 ie frac0 inv kD B(1,2) by linarith
  define q where "q = rnd (p + ?inc)"
  have qe: "\<bar>q - (p + ?inc)\<bar> \<le> e" unfolding q_def using E range by simp
  have suc_frac: "100 * real (Suc k) / real n = 100 * real k / real n + 100 / real n"
    by (simp add: add_divide_distrib distrib_left)
  have suc_D: "real (Suc k) * ?D = real k * ?D + ?D" by (simp add: algebra_simps)
  have qerr: "\<bar>q - 100 * real (Suc k) / real n\<bar> \<le> real (Suc k) * ?D"
    unfolding suc_frac suc_D using qe pe ie by linarith
  have frac_le: "100 * real (Suc k) / real n \<le> 100"
    using Suc.prems n(1) by (simp add: divide_le_eq)
  let ?p' = "min q 100"
  have step: "productionTick_rounded rnd CT (s\<lparr> activeVideo := Some (av\<lparr> progress := p \<rparr>) \<rparr>) =
      s\<lparr> activeVideo := Some (av\<lparr> progress := ?p' \<rparr>) \<rparr>"
    unfolding q_def
    by (subst productionTick_rounded_advance[where av = "av\<lparr> progress := p \<rparr>" and ct = ct])
       (use ct plt d in simp_all)
  have st: "(productionTick_rounded rnd CT ^^ Suc k) s = s\<lparr> activeVideo := Some (av\<lparr> progress := ?p' \<rparr>) \<rparr>"
    using sk step by simp
  have e1: "\<bar>?p' - 100 * real (Suc k) / real n\<bar> \<le> real (Suc k) * ?D"
    using qerr frac_le by (auto simp: min_def)
  have e2: "?p' \<le> 100" by simp
  have e3: "?p' < 100" if "Suc k < n"
  proof -
    have "100 * real (Suc k) / real n + 100 / real n = 100 * real (Suc (Suc k)) / real n"
      by (simp add: add_divide_distrib distrib_left)
    also have "\<dots> \<le> 100" using that n(1) by (simp add: divide_le_eq)
    finally have "100 * real (Suc k) / real n \<le> 100 - 100 / real n" by linarith
    moreover have "real (Suc k) * ?D < 100 / real n" by (rule B(4)[OF that])
    ultimately have "q < 100" using qerr by linarith
    then show ?thesis by simp
  qed
  from st e1 e2 e3 show ?case by blast
qed

lemma rounded_ticks_credit:
  assumes idle: "activeVideo s = None"
    and ct: "find_first (\<lambda>c. content_id c = content_id ct) CT = Some ct"
    and n: "0 < n" "duration ct = real n / 10"
    and E: "\<forall>x. \<bar>x\<bar> \<le> 256 \<longrightarrow> \<bar>rnd x - x\<bar> \<le> e"
    and S: "1102 * e * real n * real (n + 1) \<le> 100"
  shows "\<exists>m. (m = n + 1 \<or> m = n + 2) \<and> ((\<forall>x. rnd x = x) \<longrightarrow> m = n + 1) \<and>
           (\<forall>k<m. \<exists>p. (productionTick_rounded rnd CT ^^ k) (startVideo (content_id ct) now s) =
                    s\<lparr> activeVideo :=
                         Some \<lparr> video_id = content_id ct, progress = p, startTime = now \<rparr> \<rparr>) \<and>
           (\<forall>k\<ge>m. (productionTick_rounded rnd CT ^^ k) (startVideo (content_id ct) now s) =
                    published ct s)"
proof -
  let ?T = "productionTick_rounded rnd CT"
  let ?av = "\<lparr> video_id = content_id ct, progress = 0, startTime = now \<rparr>"
  let ?s0 = "startVideo (content_id ct) now s"
  let ?st = "\<lambda>p. s\<lparr> activeVideo := Some \<lparr> video_id = content_id ct, progress = p, startTime = now \<rparr> \<rparr>"
  let ?D = "1102 * e"
  let ?inc = "autoIncrement_rounded rnd (duration ct)"
  note B = rounding_budget[OF E S n(1)]
  have s0: "?s0 = s\<lparr> activeVideo := Some ?av \<rparr>" using idle by (simp add: startVideo_def)
  have a: "activeVideo ?s0 = Some ?av" "progress ?av = 0" by (simp_all add: s0)
  have c: "find_first (\<lambda>c. content_id c = video_id ?av) CT = Some ct" using ct by simp
  have before: "\<exists>p. (?T ^^ k) ?s0 = ?st p \<and> \<bar>p - 100 * real k / real n\<bar> \<le> real k * ?D \<and> p \<le> 100"
    if "k \<le> n" for k
    using rounded_ticks_progress[OF a c n E S that] by (auto simp: s0)
  from before[of n] obtain pn where
    sn: "(?T ^^ n) ?s0 = ?st pn" and pe: "\<bar>pn - 100 * real n / real n\<bar> \<le> real n * ?D"
    and p100: "pn \<le> 100" by blast
  have pe': "\<bar>pn - 100\<bar> \<le> real n * ?D" using pe n(1) by simp
  have pub_idle: "activeVideo (published ct s) = None" by (simp add: published_def Let_def)
  have after: "(?T ^^ k) ?s0 = published ct s"
    if m: "(?T ^^ m) ?s0 = published ct s" and km: "m \<le> k" for m k
  proof -
    have "(?T ^^ (k - m)) (published ct s) = published ct s"
      using pub_idle by (rule productionTick_rounded_idle_funpow)
    then have "(?T ^^ ((k - m) + m)) ?s0 = published ct s"
      using m by (simp only: funpow_add o_apply)
    then show ?thesis using km by simp
  qed
  have exact: "pn = 100" if ex: "\<forall>x. rnd x = x"
  proof -
    from ex have "rnd = (\<lambda>x. x)" by auto
    then have "(?T ^^ n) ?s0 = (productionTick CT ^^ n) ?s0"
      by (simp add: productionTick_rounded_exact_funpow)
    also have "\<dots> = ?s0\<lparr> activeVideo := Some (?av\<lparr> progress := 100 * real n / real n \<rparr>) \<rparr>"
      by (rule ticks_progress[OF a c n]) simp
    finally have "?st pn = ?st 100" using sn n(1) by (simp add: s0)
    then have "activeVideo (?st pn) = activeVideo (?st 100)" by simp
    then show ?thesis by simp
  qed
  show ?thesis
  proof (cases "100 \<le> pn")
    case True
    have "?T (?st pn) = published ct (?st pn)"
      by (rule productionTick_rounded_complete[where av = "\<lparr> video_id = content_id ct, progress = pn, startTime = now \<rparr>"])
         (use ct True in simp_all)
    then have s1: "(?T ^^ (n + 1)) ?s0 = published ct s"
      using sn by (simp add: published_idle)
    have lt: "\<exists>p. (?T ^^ k) ?s0 = ?st p" if "k < n + 1" for k
    proof -
      from that have "k \<le> n" by simp
      from before[OF this] show ?thesis by blast
    qed
    have ge: "(?T ^^ k) ?s0 = published ct s" if "n + 1 \<le> k" for k
      using after[OF s1 that] .
    from lt ge show ?thesis by blast
  next
    case False
    then have plt: "pn < 100" by simp
    have d: "duration ct \<noteq> 0" using n by simp
    have ie: "\<bar>?inc - 100 / real n\<bar> \<le> 1101 * e"
      by (rule autoIncrement_rounded_error[OF E B(2) n])
    have inv: "100 / real n \<le> 100" using n(1) by (simp add: divide_le_eq)
    have nD: "real n * ?D + ?D \<le> 100 / real n" using B(3) by (simp add: algebra_simps)
    have range: "\<bar>pn + ?inc\<bar> \<le> 256" using pe' p100 ie inv nD B(1,2) by linarith
    define q where "q = rnd (pn + ?inc)"
    have qe: "\<bar>q - (pn + ?inc)\<bar> \<le> e" unfolding q_def using E range by simp
    have q100: "100 \<le> q" using qe pe' ie nD by linarith
    have "?T (?st pn) = ?st (min q 100)"
      unfolding q_def
      by (subst productionTick_rounded_advance[where av = "\<lparr> video_id = content_id ct, progress = pn, startTime = now \<rparr>" and ct = ct])
         (use ct plt d in simp_all)
    then have "?T (?st pn) = ?st 100" using q100 by (simp add: min_def)
    then have s1: "(?T ^^ (n + 1)) ?s0 = ?st 100" using sn by simp
    have "?T (?st 100) = published ct (?st 100)"
      by (rule productionTick_rounded_complete[where av = "\<lparr> video_id = content_id ct, progress = 100, startTime = now \<rparr>"])
         (use ct in simp_all)
    then have "?T ((?T ^^ (n + 1)) ?s0) = published ct s"
      using s1 by (simp add: published_idle)
    then have s2: "(?T ^^ (n + 2)) ?s0 = published ct s" by simp
    have lt: "\<exists>p. (?T ^^ k) ?s0 = ?st p" if "k < n + 2" for k
    proof (cases "k \<le> n")
      case True
      from before[OF this] show ?thesis by blast
    next
      case False
      with that have "k = n + 1" by simp
      with s1 show ?thesis by blast
    qed
    have ge: "(?T ^^ k) ?s0 = published ct s" if "n + 2 \<le> k" for k
      using after[OF s2 that] .
    have nex: "\<not> (\<forall>x. rnd x = x)" using exact plt by auto
    from lt ge nex show ?thesis by blast
  qed
qed

section \<open>Facts about manual editing\<close>

lemma manualEdit_step:
  assumes "activeVideo s = Some av"
  shows "\<exists>av'. manualEdit CT s = s\<lparr> activeVideo := Some av' \<rparr> \<and>
           video_id av' = video_id av \<and> (progress av < 100 \<longrightarrow> progress av' < 100)"
proof (cases "find_first (\<lambda>c. content_id c = video_id av) CT")
  case None
  then have "manualEdit CT s = s\<lparr> activeVideo := Some av \<rparr>"
    using assms by (simp add: manualEdit_def)
  then show ?thesis by blast
next
  case (Some ct)
  show ?thesis
  proof (cases "duration ct = 0")
    case True
    let ?av' = "av\<lparr> progress := 99.9 \<rparr>"
    have "manualEdit CT s = s\<lparr> activeVideo := Some ?av' \<rparr>"
      using assms Some True by (simp add: manualEdit_def)
    moreover have "progress ?av' < 100" by simp
    moreover have "video_id ?av' = video_id av" by simp
    ultimately show ?thesis by blast
  next
    case False
    let ?av' = "av\<lparr> progress := min (progress av + 0.5 / duration ct * 100) 99.9 \<rparr>"
    have "manualEdit CT s = s\<lparr> activeVideo := Some ?av' \<rparr>"
      using assms Some False by (simp add: manualEdit_def Let_def)
    moreover have "progress ?av' < 100" by (simp add: min_def)
    moreover have "video_id ?av' = video_id av" by simp
    ultimately show ?thesis by blast
  qed
qed

lemma manualEdit_known_below_100:
  assumes "activeVideo s = Some av"
    and "find_first (\<lambda>c. content_id c = video_id av) CT = Some ct"
  shows "\<exists>av'. activeVideo (manualEdit CT s) = Some av' \<and> progress av' \<le> 99.9"
  using assms by (simp add: manualEdit_def Let_def min_def)

lemma manualEdit_funpow:
  assumes "activeVideo s = Some av"
  shows "\<exists>av'. (manualEdit CT ^^ n) s = s\<lparr> activeVideo := Some av' \<rparr> \<and>
           video_id av' = video_id av \<and> (progress av < 100 \<longrightarrow> progress av' < 100)"
proof (induction n)
  case 0
  have "s = s\<lparr> activeVideo := Some av \<rparr>" using assms by simp
  then show ?case by auto
next
  case (Suc n)
  then obtain a where a: "(manualEdit CT ^^ n) s = s\<lparr> activeVideo := Some a \<rparr>"
    "video_id a = video_id av" "progress av < 100 \<longrightarrow> progress a < 100" by blast
  have "activeVideo (s\<lparr> activeVideo := Some a \<rparr>) = Some a" by simp
  from manualEdit_step[OF this, of CT] obtain a' where
    a': "manualEdit CT (s\<lparr> activeVideo := Some a \<rparr>) = s\<lparr> activeVideo := Some a' \<rparr>"
    "video_id a' = video_id a" "progress a < 100 \<longrightarrow> progress a' < 100" by auto
  have "(manualEdit CT ^^ Suc n) s = s\<lparr> activeVideo := Some a' \<rparr>"
    using a(1) a'(1) by simp
  with a'(2,3) a(2,3) show ?case by auto
qed

section \<open>C1: the yield committed on completion\<close>

text \<open>
  C1. When the tick of the production loop observes \<open>progress \<ge> 100\<close> for the active
  video, it credits the ledger with
  \<open>viewsGained = baseViews * (1 + passive view rate * 0.1) * viralBoost\<close>,
  \<open>moneyGained = baseMoney * money multiplier * viralBoost\<close> and
  \<open>subscribersGained = max 0 (viewsGained * 0.05 * (1 + passive subscriber rate * 0.1))\<close>,
  where \<open>viralBoost\<close> is 3 while the viral event is active and 1 otherwise; it appends one
  notification and leaves no active video. The passive rates are the sums of
  \<open>value * level\<close> over the upgrades of type views and subscribers, and the money
  multiplier is 1 plus that sum over the upgrades of type money.
\<close>

theorem completion_commits_yield:
  assumes "activeVideo s = Some av"
    and "find_first (\<lambda>c. content_id c = video_id av) CT = Some ct"
    and "100 \<le> progress av"
  shows "let g = gameState s;
             passiveViewRate =
               (\<Sum>u\<leftarrow>filter (\<lambda>u. upgrade_type u = Views) (upgrades g).
                  upgrade_value u * real (level u));
             passiveSubscriberRate =
               (\<Sum>u\<leftarrow>filter (\<lambda>u. upgrade_type u = Subscribers) (upgrades g).
                  upgrade_value u * real (level u));
             moneyMultiplier =
               1 + (\<Sum>u\<leftarrow>filter (\<lambda>u. upgrade_type u = Money) (upgrades g).
                      upgrade_value u * real (level u));
             viralBoost = (if isViral s then 3 else 1);
             viewsGained = baseViews ct * (1 + passiveViewRate * 0.1) * viralBoost;
             moneyGained = baseMoney ct * moneyMultiplier * viralBoost;
             subscribersGained = max 0 (viewsGained * 0.05 * (1 + passiveSubscriberRate * 0.1))
         in productionTick CT s =
              s\<lparr> gameState := g\<lparr> views := views g + viewsGained,
                                  totalViews := totalViews g + viewsGained,
                                  money := money g + moneyGained,
                                  totalMoney := totalMoney g + moneyGained,
                                  subscribers := subscribers g + subscribersGained \<rparr>,
                 notifications := notifications s @
                   [\<lparr> notification_id = nextNotificationId s,
                      notification_text = VideoPublished (isViral s) \<lfloor>viewsGained\<rfloor> \<rparr>],
                 nextNotificationId := nextNotificationId s + 1,
                 activeVideo := None \<rparr>"
proof -
  have "productionTick CT s = published ct s"
    using assms by (rule productionTick_complete)
  then show ?thesis
    unfolding published_def Let_def
      getPassiveViews_sum getPassiveSubs_sum getMoneyMultiplier_sum
    by simp
qed

theorem completion_commits_yield_witness:
  "activeVideo finishedVlog = Some \<lparr> video_id = ''vlog'', progress = 100, startTime = 0 \<rparr> \<and>
   find_first (\<lambda>c. content_id c = ''vlog'') [vlog, podcast] = Some vlog \<and>
   productionTick [vlog, podcast] finishedVlog =
     (idleApp ((emptyGame [cameraUpgrade\<lparr> level := 10 \<rparr>])
                 \<lparr> views := 600, subscribers := 30, money := 17, totalViews := 600,
                   totalMoney := 15 \<rparr>))
       \<lparr> notifications := [\<lparr> notification_id = 0, notification_text = VideoPublished True 600 \<rparr>],
         nextNotificationId := 1, isViral := True \<rparr>"
proof -
  let ?av = "\<lparr> video_id = ''vlog'', progress = 100, startTime = 0 \<rparr>"
  have a: "activeVideo finishedVlog = Some ?av" by (simp add: finishedVlog_def)
  have f: "find_first (\<lambda>c. content_id c = video_id ?av) [vlog, podcast] = Some vlog"
    by (simp add: vlog_def)
  have p: "100 \<le> progress ?av" by simp
  have v: "isViral finishedVlog" by (simp add: finishedVlog_def)
  have b: "baseViews vlog = 100" "baseMoney vlog = 5" by (simp_all add: vlog_def)
  have u: "upgrades (gameState finishedVlog) = [cameraUpgrade\<lparr> level := 10 \<rparr>]"
    by (simp add: finishedVlog_def idleApp_def emptyGame_def defaultGameState_def)
  have c: "upgrade_type cameraUpgrade = Views" "upgrade_value cameraUpgrade = 1"
    by (simp_all add: cameraUpgrade_def)
  from completion_commits_yield[OF a f p]
  have "productionTick [vlog, podcast] finishedVlog =
     (idleApp ((emptyGame [cameraUpgrade\<lparr> level := 10 \<rparr>])
                 \<lparr> views := 600, subscribers := 30, money := 17, totalViews := 600,
                   totalMoney := 15 \<rparr>))
       \<lparr> notifications := [\<lparr> notification_id = 0, notification_text = VideoPublished True 600 \<rparr>],
         nextNotificationId := 1, isViral := True \<rparr>"
    unfolding Let_def u
    by (simp add: v b c) (simp add: finishedVlog_def idleApp_def emptyGame_def defaultGameState_def)
  with a f show ?thesis by simp
qed

section \<open>C2: the price of an upgrade\<close>

text \<open>
  C2, as amended. The price at level \<open>L\<close> is \<open>floor (baseCost * multiplier ^ L)\<close>. For
  \<open>baseCost > 0\<close> and \<open>multiplier > 1\<close> the price never decreases from one level to the
  next, and it increases strictly whenever \<open>baseCost * (multiplier - 1) \<ge> 1\<close>. The floor
  can keep two consecutive levels at the same price otherwise.
\<close>

theorem upgradeCost_floor_monotone:
  "upgradeCost (u\<lparr> level := L \<rparr>) = \<lfloor>baseCost u * multiplier u ^ L\<rfloor> \<and>
   (0 < baseCost u \<and> 1 < multiplier u \<longrightarrow>
      upgradeCost (u\<lparr> level := L \<rparr>) \<le> upgradeCost (u\<lparr> level := L + 1 \<rparr>)) \<and>
   (1 < multiplier u \<and> 1 \<le> baseCost u * (multiplier u - 1) \<longrightarrow>
      upgradeCost (u\<lparr> level := L \<rparr>) < upgradeCost (u\<lparr> level := L + 1 \<rparr>))"
proof -
  have f: "upgradeCost (u\<lparr> level := L \<rparr>) = \<lfloor>baseCost u * multiplier u ^ L\<rfloor>"
    by (simp add: upgradeCost_def)
  have mono: "upgradeCost (u\<lparr> level := L \<rparr>) \<le> upgradeCost (u\<lparr> level := L + 1 \<rparr>)"
    if "0 < baseCost u" "1 < multiplier u"
  proof -
    have "multiplier u ^ L \<le> multiplier u ^ Suc L"
      using that(2) by (simp add: power_increasing)
    then have "baseCost u * multiplier u ^ L \<le> baseCost u * multiplier u ^ Suc L"
      using that(1) by (simp add: mult_left_mono)
    then show ?thesis
      unfolding upgradeCost_def by (simp add: floor_mono)
  qed
  have strict: "upgradeCost (u\<lparr> level := L \<rparr>) < upgradeCost (u\<lparr> level := L + 1 \<rparr>)"
    if m: "1 < multiplier u" and b: "1 \<le> baseCost u * (multiplier u - 1)"
  proof -
    let ?x = "baseCost u * multiplier u ^ L"
    have p: "1 \<le> multiplier u ^ L" using m by (simp add: one_le_power)
    have "0 \<le> baseCost u * (multiplier u - 1)" using b by linarith
    then have "baseCost u * (multiplier u - 1) * 1
        \<le> baseCost u * (multiplier u - 1) * multiplier u ^ L"
      using p by (rule mult_left_mono[rotated])
    then have "1 \<le> baseCost u * (multiplier u - 1) * multiplier u ^ L"
      using b by linarith
    moreover have "baseCost u * multiplier u ^ Suc L
        = ?x + baseCost u * (multiplier u - 1) * multiplier u ^ L"
      by (simp add: algebra_simps)
    ultimately have "?x + 1 \<le> baseCost u * multiplier u ^ Suc L" by linarith
    then have "\<lfloor>?x + 1\<rfloor> \<le> \<lfloor>baseCost u * multiplier u ^ Suc L\<rfloor>" by (rule floor_mono)
    then show ?thesis unfolding upgradeCost_def by simp
  qed
  from f mono strict show ?thesis by blast
qed

theorem upgradeCost_floor_monotone_witness:
  "0 < baseCost cameraUpgrade \<and> 1 < multiplier cameraUpgrade \<and>
   1 \<le> baseCost cameraUpgrade * (multiplier cameraUpgrade - 1) \<and>
   upgradeCost (cameraUpgrade\<lparr> level := 3 \<rparr>) = 15 \<and>
   upgradeCost (cameraUpgrade\<lparr> level := 3 \<rparr>) \<le> upgradeCost (cameraUpgrade\<lparr> level := 3 + 1 \<rparr>) \<and>
   upgradeCost (cameraUpgrade\<lparr> level := 3 \<rparr>) < upgradeCost (cameraUpgrade\<lparr> level := 3 + 1 \<rparr>)"
proof -
  have h: "0 < baseCost cameraUpgrade" "1 < multiplier cameraUpgrade"
    "1 \<le> baseCost cameraUpgrade * (multiplier cameraUpgrade - 1)"
    by (simp_all add: cameraUpgrade_def)
  have v: "\<lfloor>baseCost cameraUpgrade * multiplier cameraUpgrade ^ 3\<rfloor> = 15"
    by (simp add: cameraUpgrade_def power3_eq_cube)
  from upgradeCost_floor_monotone[where u = cameraUpgrade and L = 3] h v show ?thesis by simp
qed

theorem upgradeCost_not_strict_counterexample:
  "0 < baseCost cheapUpgrade \<and> 1 < multiplier cheapUpgrade \<and>
   upgradeCost (cheapUpgrade\<lparr> level := 0 \<rparr>) = 1 \<and>
   upgradeCost (cheapUpgrade\<lparr> level := 0 + 1 \<rparr>) = 1"
  by (simp add: cheapUpgrade_def upgradeCost_def)

section \<open>C3: a purchase is all or nothing\<close>

text \<open>
  C3. For an id carried by an upgrade of the list, \<open>buyUpgrade\<close> acts on the first upgrade
  with that id: when the money is below its cost the whole state stays as it is; when the
  money covers the cost, exactly the cost is deducted and the level of that upgrade grows
  by exactly 1, with nothing else changed. Money that was not negative is not negative
  afterwards.
\<close>

theorem buyUpgrade_purchase:
  assumes "\<exists>u\<in>set (upgrades (gameState s)). upgrade_id u = uid"
  shows "\<exists>i. i < length (upgrades (gameState s)) \<and>
           upgrade_id (upgrades (gameState s) ! i) = uid \<and>
           (\<forall>j<i. upgrade_id (upgrades (gameState s) ! j) \<noteq> uid) \<and>
           (money (gameState s) < real_of_int (upgradeCost (upgrades (gameState s) ! i)) \<longrightarrow>
              buyUpgrade uid s = Inr s) \<and>
           (money (gameState s) \<ge> real_of_int (upgradeCost (upgrades (gameState s) ! i)) \<longrightarrow>
              buyUpgrade uid s =
                Inr (s\<lparr> gameState := (gameState s)
                      \<lparr> money := money (gameState s)
                                  - real_of_int (upgradeCost (upgrades (gameState s) ! i)),
                        upgrades := (upgrades (gameState s))
                          [i := (upgrades (gameState s) ! i)
                                  \<lparr> level := level (upgrades (gameState s) ! i) + 1 \<rparr>] \<rparr> \<rparr>)) \<and>
           (\<forall>s'. buyUpgrade uid s = Inr s' \<longrightarrow> 0 \<le> money (gameState s) \<longrightarrow>
                 0 \<le> money (gameState s'))"
proof -
  from assms obtain i
    where i: "findIndex (\<lambda>u. upgrade_id u = uid) (upgrades (gameState s)) = Some i"
    by (rule findIndex_known)
  note fi = findIndex_Some[OF i]
  have unaff: "money (gameState s) < real_of_int (upgradeCost (upgrades (gameState s) ! i)) \<Longrightarrow>
      buyUpgrade uid s = Inr s"
    by (simp add: buyUpgrade_def i Let_def)
  have aff: "money (gameState s) \<ge> real_of_int (upgradeCost (upgrades (gameState s) ! i)) \<Longrightarrow>
      buyUpgrade uid s =
        Inr (s\<lparr> gameState := (gameState s)
              \<lparr> money := money (gameState s)
                          - real_of_int (upgradeCost (upgrades (gameState s) ! i)),
                upgrades := (upgrades (gameState s))
                  [i := (upgrades (gameState s) ! i)
                          \<lparr> level := level (upgrades (gameState s) ! i) + 1 \<rparr>] \<rparr> \<rparr>)"
    by (simp add: buyUpgrade_def i Let_def)
  have nonneg: "\<And>s'. buyUpgrade uid s = Inr s' \<Longrightarrow> 0 \<le> money (gameState s) \<Longrightarrow>
      0 \<le> money (gameState s')"
    by (auto simp: buyUpgrade_def i Let_def split: if_splits)
  from fi unaff aff nonneg show ?thesis by blast
qed

theorem buyUpgrade_purchase_witness:
  "cameraUpgrade \<in> set (upgrades (gameState richApp)) \<and> upgrade_id cameraUpgrade = ''camera'' \<and>
   buyUpgrade ''camera'' richApp =
     Inr (idleApp ((emptyGame [cameraUpgrade\<lparr> level := 1 \<rparr>])\<lparr> money := 15 \<rparr>)) \<and>
   cameraUpgrade \<in> set (upgrades (gameState poorApp)) \<and>
   buyUpgrade ''camera'' poorApp = Inr poorApp"
proof -
  have c: "upgradeCost cameraUpgrade = 10"
    by (simp add: upgradeCost_def cameraUpgrade_def)
  have u: "upgrade_id cameraUpgrade = ''camera''" by (simp add: cameraUpgrade_def)
  have ur: "upgrades (gameState richApp) = [cameraUpgrade]" "money (gameState richApp) = 25"
    by (simp_all add: richApp_def idleApp_def emptyGame_def defaultGameState_def)
  have up: "upgrades (gameState poorApp) = [cameraUpgrade]" "money (gameState poorApp) = 3"
    by (simp_all add: poorApp_def idleApp_def emptyGame_def defaultGameState_def)
  have hr: "\<exists>u\<in>set (upgrades (gameState richApp)). upgrade_id u = ''camera''"
    by (simp add: ur u)
  have hp: "\<exists>u\<in>set (upgrades (gameState poorApp)). upgrade_id u = ''camera''"
    by (simp add: up u)
  from buyUpgrade_purchase[OF hr] obtain i where
    "i < length (upgrades (gameState richApp))"
    and "money (gameState richApp) \<ge> real_of_int (upgradeCost (upgrades (gameState richApp) ! i)) \<longrightarrow>
           buyUpgrade ''camera'' richApp =
             Inr (richApp\<lparr> gameState := (gameState richApp)
                   \<lparr> money := money (gameState richApp)
                               - real_of_int (upgradeCost (upgrades (gameState richApp) ! i)),
                     upgrades := (upgrades (gameState richApp))
                       [i := (upgrades (gameState richApp) ! i)
                               \<lparr> level := level (upgrades (gameState richApp) ! i) + 1 \<rparr>] \<rparr> \<rparr>)"
    by blast
  then have "buyUpgrade ''camera'' richApp =
      Inr (richApp\<lparr> gameState := (gameState richApp)
            \<lparr> money := 15, upgrades := [cameraUpgrade\<lparr> level := level cameraUpgrade + 1 \<rparr>] \<rparr> \<rparr>)"
    by (simp add: ur c)
  then have r: "buyUpgrade ''camera'' richApp =
      Inr (idleApp ((emptyGame [cameraUpgrade\<lparr> level := 1 \<rparr>])\<lparr> money := 15 \<rparr>))"
    by (simp add: richApp_def idleApp_def emptyGame_def defaultGameState_def)
       (simp add: cameraUpgrade_def)
  from buyUpgrade_purchase[OF hp] obtain j where
    "j < length (upgrades (gameState poorApp))"
    and "money (gameState poorApp) < real_of_int (upgradeCost (upgrades (gameState poorApp) ! j)) \<longrightarrow>
           buyUpgrade ''camera'' poorApp = Inr poorApp"
    by blast
  then have p: "buyUpgrade ''camera'' poorApp = Inr poorApp"
    by (simp add: up c)
  from r p u show ?thesis by (simp add: ur up)
qed

section \<open>C4: starting a video\<close>

text \<open>
  C4, as amended. \<open>startVideo\<close> is a no-op while a video is already active, and while
  idle it starts the given id with progress 0, whether or not the subscribers reach the
  entry's threshold \<open>unlockedAtSubs\<close>: it does not look at the threshold. The threshold
  is enforced where the library is rendered: the RECORD control of an entry is rendered
  only when the threshold is met and is disabled while a video is active, so a click does
  nothing for a locked entry and calls \<open>startVideo\<close> for an unlocked one.
\<close>

theorem startVideo_from_idle_gate_in_view:
  "(activeVideo s \<noteq> None \<longrightarrow> startVideo ident now s = s) \<and>
   (activeVideo s = None \<longrightarrow>
      startVideo ident now s =
        s\<lparr> activeVideo := Some \<lparr> video_id = ident, progress = 0, startTime = now \<rparr> \<rparr>) \<and>
   (activeVideo s \<noteq> None \<or> subscribers (gameState s) < unlockedAtSubs t \<longrightarrow>
      clickRecord t now s = s) \<and>
   (activeVideo s = None \<and> unlockedAtSubs t \<le> subscribers (gameState s) \<longrightarrow>
      clickRecord t now s = startVideo (content_id t) now s)"
  by (simp add: startVideo_def clickRecord_def isLocked_def)

theorem startVideo_from_idle_gate_in_view_witness:
  "activeVideo (startVideo ''vlog'' 7 freshApp) \<noteq> None \<and>
   startVideo ''podcast'' 8 (startVideo ''vlog'' 7 freshApp) = startVideo ''vlog'' 7 freshApp \<and>
   activeVideo freshApp = None \<and>
   startVideo ''podcast'' 7 freshApp =
     freshApp\<lparr> activeVideo := Some \<lparr> video_id = ''podcast'', progress = 0, startTime = 7 \<rparr> \<rparr> \<and>
   subscribers (gameState freshApp) < unlockedAtSubs podcast \<and>
   clickRecord podcast 7 freshApp = freshApp \<and>
   unlockedAtSubs vlog \<le> subscribers (gameState freshApp) \<and>
   clickRecord vlog 7 freshApp =
     freshApp\<lparr> activeVideo := Some \<lparr> video_id = ''vlog'', progress = 0, startTime = 7 \<rparr> \<rparr>"
proof -
  let ?s = "freshApp"
  let ?s1 = "startVideo ''vlog'' 7 ?s"
  have a: "activeVideo ?s1 \<noteq> None" by (simp add: startVideo_def)
  have i: "activeVideo ?s = None" by (simp add: freshApp_def idleApp_def)
  have l: "subscribers (gameState ?s) < unlockedAtSubs podcast"
    by (simp add: freshApp_def idleApp_def emptyGame_def defaultGameState_def podcast_def)
  have u: "unlockedAtSubs vlog \<le> subscribers (gameState ?s)"
    by (simp add: freshApp_def idleApp_def emptyGame_def defaultGameState_def vlog_def)
  have c: "content_id vlog = ''vlog''" by (simp add: vlog_def)
  note t = startVideo_from_idle_gate_in_view
  from t[where s = ?s1 and ident = "''podcast''" and now = 8] a
  have 1: "startVideo ''podcast'' 8 ?s1 = ?s1" by blast
  from t[where s = ?s and ident = "''podcast''" and now = 7] i
  have 2: "startVideo ''podcast'' 7 ?s =
     ?s\<lparr> activeVideo := Some \<lparr> video_id = ''podcast'', progress = 0, startTime = 7 \<rparr> \<rparr>"
    by blast
  from t[where s = ?s and t = podcast and now = 7] l
  have 3: "clickRecord podcast 7 ?s = ?s" by blast
  from t[where s = ?s and t = vlog and now = 7 and ident = "''vlog''"] i u
  have "clickRecord vlog 7 ?s = startVideo (content_id vlog) 7 ?s"
    and "startVideo ''vlog'' 7 ?s =
     ?s\<lparr> activeVideo := Some \<lparr> video_id = ''vlog'', progress = 0, startTime = 7 \<rparr> \<rparr>"
    by blast+
  then have 4: "clickRecord vlog 7 ?s =
     ?s\<lparr> activeVideo := Some \<lparr> video_id = ''vlog'', progress = 0, startTime = 7 \<rparr> \<rparr>"
    by (simp add: c)
  from a 1 i 2 l 3 u 4 show ?thesis by blast
qed

theorem startVideo_ignores_threshold_counterexample:
  "activeVideo freshApp = None \<and>
   subscribers (gameState freshApp) < unlockedAtSubs podcast \<and>
   startVideo (content_id podcast) 7 freshApp =
     freshApp\<lparr> activeVideo := Some \<lparr> video_id = ''podcast'', progress = 0, startTime = 7 \<rparr> \<rparr> \<and>
   startVideo (content_id podcast) 7 freshApp \<noteq> freshApp"
proof -
  have i: "activeVideo freshApp = None" by (simp add: freshApp_def idleApp_def)
  have l: "subscribers (gameState freshApp) < unlockedAtSubs podcast"
    by (simp add: freshApp_def idleApp_def emptyGame_def defaultGameState_def podcast_def)
  have s: "startVideo (content_id podcast) 7 freshApp =
     freshApp\<lparr> activeVideo := Some \<lparr> video_id = ''podcast'', progress = 0, startTime = 7 \<rparr> \<rparr>"
    using i by (simp add: startVideo_def podcast_def)
  have "activeVideo (startVideo (content_id podcast) 7 freshApp) \<noteq> activeVideo freshApp"
    unfolding s using i by simp
  then have "startVideo (content_id podcast) 7 freshApp \<noteq> freshApp" by metis
  with i l s show ?thesis by simp
qed

section \<open>C5: the viral boost\<close>

text \<open>
  C5. On completion the views and the money committed are the unboosted yield times 3
  while the viral event is active and times 1 otherwise. In every state, whether a video
  is active or not, the passive tick adds a tenth of the passive view rate and of the
  passive subscriber rate and never reads the viral flag: changing the flag changes
  nothing in what the tick does.
\<close>

theorem viral_boost_scales_production_only:
  "(\<forall>av ct. activeVideo s = Some av \<and>
        find_first (\<lambda>c. content_id c = video_id av) CT = Some ct \<and> 100 \<le> progress av \<longrightarrow>
      views (gameState (productionTick CT s)) - views (gameState s)
        = (if isViral s then 3 else 1)
            * (baseViews ct * (1 + getPassiveViews (gameState s) * 0.1)) \<and>
      money (gameState (productionTick CT s)) - money (gameState s)
        = (if isViral s then 3 else 1)
            * (baseMoney ct * getMoneyMultiplier (gameState s))) \<and>
   passiveTick (s\<lparr> isViral := b \<rparr>) = (passiveTick s)\<lparr> isViral := b \<rparr> \<and>
   views (gameState (passiveTick s))
     = views (gameState s) + getPassiveViews (gameState s) / 10 \<and>
   totalViews (gameState (passiveTick s))
     = totalViews (gameState s) + getPassiveViews (gameState s) / 10 \<and>
   subscribers (gameState (passiveTick s))
     = subscribers (gameState s) + getPassiveSubs (gameState s) / 10 \<and>
   money (gameState (passiveTick s)) = money (gameState s)"
proof -
  have prod: "views (gameState (productionTick CT s)) - views (gameState s)
        = (if isViral s then 3 else 1)
            * (baseViews ct * (1 + getPassiveViews (gameState s) * 0.1)) \<and>
      money (gameState (productionTick CT s)) - money (gameState s)
        = (if isViral s then 3 else 1)
            * (baseMoney ct * getMoneyMultiplier (gameState s))"
    if "activeVideo s = Some av"
      and "find_first (\<lambda>c. content_id c = video_id av) CT = Some ct"
      and "100 \<le> progress av" for av ct
    by (simp add: productionTick_complete[OF that] published_def Let_def)
  have p: "passiveTick (s\<lparr> isViral := b \<rparr>) = (passiveTick s)\<lparr> isViral := b \<rparr>"
    by (simp add: passiveTick_def Let_def)
  have q: "views (gameState (passiveTick s))
      = views (gameState s) + getPassiveViews (gameState s) / 10"
    "totalViews (gameState (passiveTick s))
      = totalViews (gameState s) + getPassiveViews (gameState s) / 10"
    "subscribers (gameState (passiveTick s))
      = subscribers (gameState s) + getPassiveSubs (gameState s) / 10"
    "money (gameState (passiveTick s)) = money (gameState s)"
    by (simp_all add: passiveTick_def Let_def)
  from prod p q show ?thesis by blast
qed

theorem viral_boost_scales_production_only_witness:
  "activeVideo (finishedVlog\<lparr> isViral := False \<rparr>)
      = Some \<lparr> video_id = ''vlog'', progress = 100, startTime = 0 \<rparr> \<and>
   find_first (\<lambda>c. content_id c = ''vlog'') [vlog, podcast] = Some vlog \<and>
   views (gameState (productionTick [vlog, podcast] (finishedVlog\<lparr> isViral := False \<rparr>)))
      - views (gameState (finishedVlog\<lparr> isViral := False \<rparr>)) = 200 \<and>
   views (gameState (productionTick [vlog, podcast] (finishedVlog\<lparr> isViral := True \<rparr>)))
      - views (gameState (finishedVlog\<lparr> isViral := True \<rparr>)) = 600 \<and>
   activeVideo viralIdle = None \<and> isViral viralIdle \<and>
   views (gameState (passiveTick viralIdle)) = 8 \<and>
   views (gameState (passiveTick (viralIdle\<lparr> isViral := False \<rparr>))) = 8"
proof -
  let ?av = "\<lparr> video_id = ''vlog'', progress = 100, startTime = 0 \<rparr>"
  have a: "activeVideo (finishedVlog\<lparr> isViral := b \<rparr>) = Some ?av" for b
    by (simp add: finishedVlog_def)
  have f: "find_first (\<lambda>c. content_id c = video_id ?av) [vlog, podcast] = Some vlog"
    by (simp add: vlog_def)
  have p: "100 \<le> progress ?av" by simp
  have b: "baseViews vlog = 100" by (simp add: vlog_def)
  have z: "views (gameState finishedVlog) = 0"
    by (simp add: finishedVlog_def idleApp_def emptyGame_def defaultGameState_def)
  have vi: "activeVideo viralIdle = None" "isViral viralIdle" "views (gameState viralIdle) = 7"
    by (simp_all add: viralIdle_def idleApp_def emptyGame_def defaultGameState_def)
  note t = viral_boost_scales_production_only
  from t[where s = "finishedVlog\<lparr> isViral := False \<rparr>" and CT = "[vlog, podcast]"] a[of False] f p
  have 1: "views (gameState (productionTick [vlog, podcast] (finishedVlog\<lparr> isViral := False \<rparr>)))
      - views (gameState (finishedVlog\<lparr> isViral := False \<rparr>))
      = (if isViral (finishedVlog\<lparr> isViral := False \<rparr>) then 3 else 1)
            * (baseViews vlog * (1 + getPassiveViews (gameState (finishedVlog\<lparr> isViral := False \<rparr>)) * 0.1))"
    by blast
  from t[where s = "finishedVlog\<lparr> isViral := True \<rparr>" and CT = "[vlog, podcast]"] a[of True] f p
  have 2: "views (gameState (productionTick [vlog, podcast] (finishedVlog\<lparr> isViral := True \<rparr>)))
      - views (gameState (finishedVlog\<lparr> isViral := True \<rparr>))
      = (if isViral (finishedVlog\<lparr> isViral := True \<rparr>) then 3 else 1)
            * (baseViews vlog * (1 + getPassiveViews (gameState (finishedVlog\<lparr> isViral := True \<rparr>)) * 0.1))"
    by blast
  from t[where s = viralIdle and b = False]
  have 3: "passiveTick (viralIdle\<lparr> isViral := False \<rparr>) = (passiveTick viralIdle)\<lparr> isViral := False \<rparr>"
    and 4: "views (gameState (passiveTick viralIdle))
      = views (gameState viralIdle) + getPassiveViews (gameState viralIdle) / 10"
    by blast+
  have r: "getPassiveViews (gameState viralIdle) = 10"
    using rates_viralIdle(1)[of True] vi(2) by (simp add: viralIdle_def)
  from 1 have r1: "views (gameState (productionTick [vlog, podcast] (finishedVlog\<lparr> isViral := False \<rparr>)))
      - views (gameState (finishedVlog\<lparr> isViral := False \<rparr>)) = 200"
    unfolding rates_finishedVlog by (simp add: b)
  from 2 have r2: "views (gameState (productionTick [vlog, podcast] (finishedVlog\<lparr> isViral := True \<rparr>)))
      - views (gameState (finishedVlog\<lparr> isViral := True \<rparr>)) = 600"
    unfolding rates_finishedVlog by (simp add: b)
  from 4 have r4: "views (gameState (passiveTick viralIdle)) = 8" by (simp add: r vi)
  from 3 r4 have r3: "views (gameState (passiveTick (viralIdle\<lparr> isViral := False \<rparr>))) = 8" by simp
  from a[of False] f r1 r2 vi r4 r3 show ?thesis by simp
qed

section \<open>C6: manual editing never completes a video\<close>

text \<open>
  C6. For an active video of a catalog entry, a manual edit sets the progress to the
  minimum of \<open>progress + 0.5 / duration * 100\<close> and 99.9, so the progress it leaves is
  below 100. From a progress below 100, any number of manual edits leaves the video
  active with progress below 100 and touches neither the ledger nor the notifications,
  and the production tick that follows does not complete the video either: completion
  needs a tick that observes \<open>progress \<ge> 100\<close>.
\<close>

theorem manualEdit_never_completes:
  assumes "activeVideo s = Some av"
  shows "(\<forall>ct. find_first (\<lambda>c. content_id c = video_id av) CT = Some ct \<and> duration ct \<noteq> 0 \<longrightarrow>
            manualEdit CT s =
              s\<lparr> activeVideo :=
                   Some (av\<lparr> progress := min (progress av + 0.5 / duration ct * 100) 99.9 \<rparr>) \<rparr>) \<and>
         (\<forall>ct. find_first (\<lambda>c. content_id c = video_id av) CT = Some ct \<longrightarrow>
            (\<exists>av'. activeVideo (manualEdit CT s) = Some av' \<and> progress av' < 100)) \<and>
         (progress av < 100 \<longrightarrow>
            (\<exists>av'. activeVideo ((manualEdit CT ^^ n) s) = Some av' \<and> progress av' < 100 \<and>
                   video_id av' = video_id av) \<and>
            activeVideo (productionTick CT ((manualEdit CT ^^ n) s)) \<noteq> None \<and>
            gameState (productionTick CT ((manualEdit CT ^^ n) s)) = gameState s) \<and>
         gameState ((manualEdit CT ^^ n) s) = gameState s \<and>
         notifications ((manualEdit CT ^^ n) s) = notifications s \<and>
         nextNotificationId ((manualEdit CT ^^ n) s) = nextNotificationId s"
proof -
  have one: "\<forall>ct. find_first (\<lambda>c. content_id c = video_id av) CT = Some ct \<and> duration ct \<noteq> 0 \<longrightarrow>
      manualEdit CT s =
        s\<lparr> activeVideo :=
             Some (av\<lparr> progress := min (progress av + 0.5 / duration ct * 100) 99.9 \<rparr>) \<rparr>"
    using assms by (simp add: manualEdit_def Let_def)
  have two: "\<forall>ct. find_first (\<lambda>c. content_id c = video_id av) CT = Some ct \<longrightarrow>
      (\<exists>av'. activeVideo (manualEdit CT s) = Some av' \<and> progress av' < 100)"
  proof (intro allI impI)
    fix ct assume "find_first (\<lambda>c. content_id c = video_id av) CT = Some ct"
    from manualEdit_known_below_100[OF assms this] obtain a where
      "activeVideo (manualEdit CT s) = Some a" "progress a \<le> 99.9" by blast
    moreover from this have "progress a < 100" by simp
    ultimately show "\<exists>av'. activeVideo (manualEdit CT s) = Some av' \<and> progress av' < 100"
      by blast
  qed
  from manualEdit_funpow[OF assms, where CT = CT and n = n] obtain a where
    a: "(manualEdit CT ^^ n) s = s\<lparr> activeVideo := Some a \<rparr>"
       "video_id a = video_id av" "progress av < 100 \<longrightarrow> progress a < 100" by blast
  have three: "(\<exists>av'. activeVideo ((manualEdit CT ^^ n) s) = Some av' \<and> progress av' < 100 \<and>
                   video_id av' = video_id av) \<and>
      activeVideo (productionTick CT ((manualEdit CT ^^ n) s)) \<noteq> None \<and>
      gameState (productionTick CT ((manualEdit CT ^^ n) s)) = gameState s"
    if "progress av < 100"
  proof -
    from that a(3) have lt: "progress a < 100" by simp
    have "activeVideo (s\<lparr> activeVideo := Some a \<rparr>) = Some a" by simp
    from productionTick_below_100[OF this lt, of CT]
    have "activeVideo (productionTick CT (s\<lparr> activeVideo := Some a \<rparr>)) \<noteq> None"
      and "gameState (productionTick CT (s\<lparr> activeVideo := Some a \<rparr>)) = gameState s"
      by simp_all
    with lt a(1,2) show ?thesis by simp
  qed
  have four: "gameState ((manualEdit CT ^^ n) s) = gameState s"
    "notifications ((manualEdit CT ^^ n) s) = notifications s"
    "nextNotificationId ((manualEdit CT ^^ n) s) = nextNotificationId s"
    by (simp_all add: a(1))
  from one two three four show ?thesis by blast
qed

theorem manualEdit_never_completes_witness:
  "activeVideo editingVlog = Some \<lparr> video_id = ''vlog'', progress = 99.5, startTime = 0 \<rparr> \<and>
   (99.5 :: real) < 100 \<and>
   find_first (\<lambda>c. content_id c = ''vlog'') [vlog, podcast] = Some vlog \<and>
   duration vlog \<noteq> 0 \<and>
   manualEdit [vlog, podcast] editingVlog =
     editingVlog\<lparr> activeVideo := Some \<lparr> video_id = ''vlog'', progress = 99.9, startTime = 0 \<rparr> \<rparr> \<and>
   activeVideo (productionTick [vlog, podcast] ((manualEdit [vlog, podcast] ^^ 5) editingVlog))
     \<noteq> None \<and>
   gameState ((manualEdit [vlog, podcast] ^^ 5) editingVlog) = gameState editingVlog \<and>
   notifications ((manualEdit [vlog, podcast] ^^ 5) editingVlog) = []"
proof -
  let ?av = "\<lparr> video_id = ''vlog'', progress = 99.5, startTime = 0 \<rparr>"
  have a: "activeVideo editingVlog = Some ?av" by (simp add: editingVlog_def)
  have p: "progress ?av < 100" by simp
  have f: "find_first (\<lambda>c. content_id c = video_id ?av) [vlog, podcast] = Some vlog"
    by (simp add: vlog_def)
  have d: "duration vlog = 60" by (simp add: vlog_def)
  have n: "notifications editingVlog = []" by (simp add: editingVlog_def idleApp_def)
  note t = manualEdit_never_completes[OF a, where CT = "[vlog, podcast]" and n = 5]
  from t f d have "manualEdit [vlog, podcast] editingVlog =
     editingVlog\<lparr> activeVideo := Some \<lparr> video_id = ''vlog'', progress = 99.9, startTime = 0 \<rparr> \<rparr>"
    by simp
  moreover from t p
  have "activeVideo (productionTick [vlog, podcast] ((manualEdit [vlog, podcast] ^^ 5) editingVlog))
     \<noteq> None"
    by blast
  moreover from t
  have "gameState ((manualEdit [vlog, podcast] ^^ 5) editingVlog) = gameState editingVlog"
    by blast
  moreover from t n have "notifications ((manualEdit [vlog, podcast] ^^ 5) editingVlog) = []"
    by simp
  ultimately show ?thesis using a f d by simp
qed

section \<open>C7: a production run\<close>

text \<open>
  C7, as amended. Starting a catalog entry from idle and running \<open>n\<close> ticks of 0.1 s whose
  sum is the entry's duration drives the progress from 0 to 100 within the tolerance that
  rounding leaves (at most \<open>k * 1102 * e\<close> away from \<open>100 * k / n\<close> after \<open>k\<close> ticks, for
  a rounding with error at most \<open>e\<close> on numbers up to 256), with the video still active
  and nothing credited. The one credit and the one notification come with the first tick
  that observes \<open>progress \<ge> 100\<close>, which is tick \<open>n + 1\<close> or tick \<open>n + 2\<close>, and tick
  \<open>n + 1\<close> in exact arithmetic; from then on there is no active video and further ticks
  change nothing. For a duration of 60 s, 100 base views, no upgrade levels and no viral
  event, the ledger has gained exactly 100 views once that tick has run. For doubles,
  \<open>e\<close> is \<open>2 ^ (-46)\<close>, and the condition on \<open>n\<close> holds up to more than two million
  ticks.
\<close>

theorem production_run_credits_once_after_duration:
  assumes "activeVideo s = None"
    and "find_first (\<lambda>c. content_id c = content_id ct) CT = Some ct"
    and "0 < n" and "duration ct = real n / 10"
    and "\<forall>x. \<bar>x\<bar> \<le> 256 \<longrightarrow> \<bar>rnd x - x\<bar> \<le> e"
    and "1102 * e * real n * real (n + 1) \<le> 100"
  shows "(\<forall>k\<le>n. \<exists>p. (productionTick_rounded rnd CT ^^ k) (startVideo (content_id ct) now s) =
                 s\<lparr> activeVideo :=
                      Some \<lparr> video_id = content_id ct, progress = p, startTime = now \<rparr> \<rparr> \<and>
               \<bar>p - 100 * real k / real n\<bar> \<le> real k * (1102 * e) \<and> p \<le> 100 \<and>
               (k < n \<longrightarrow> p < 100)) \<and>
         (\<exists>m. (m = n + 1 \<or> m = n + 2) \<and> ((\<forall>x. rnd x = x) \<longrightarrow> m = n + 1) \<and>
              (\<forall>k<m. \<exists>p. (productionTick_rounded rnd CT ^^ k) (startVideo (content_id ct) now s) =
                        s\<lparr> activeVideo :=
                             Some \<lparr> video_id = content_id ct, progress = p, startTime = now \<rparr> \<rparr>) \<and>
              (\<forall>k\<ge>m. (productionTick_rounded rnd CT ^^ k) (startVideo (content_id ct) now s) =
                        published ct s)) \<and>
         activeVideo (published ct s) = None \<and>
         views (gameState (published ct s)) =
           views (gameState s)
             + baseViews ct * (1 + getPassiveViews (gameState s) * 0.1)
                 * (if isViral s then 3 else 1) \<and>
         length (notifications (published ct s)) = length (notifications s) + 1"
proof -
  let ?av = "\<lparr> video_id = content_id ct, progress = 0, startTime = now \<rparr>"
  let ?s0 = "startVideo (content_id ct) now s"
  have s0: "?s0 = s\<lparr> activeVideo := Some ?av \<rparr>" using assms(1) by (simp add: startVideo_def)
  have a: "activeVideo ?s0 = Some ?av" "progress ?av = 0" by (simp_all add: s0)
  have c: "find_first (\<lambda>c. content_id c = video_id ?av) CT = Some ct" using assms(2) by simp
  have before: "\<exists>p. (productionTick_rounded rnd CT ^^ k) ?s0 =
                 s\<lparr> activeVideo :=
                      Some \<lparr> video_id = content_id ct, progress = p, startTime = now \<rparr> \<rparr> \<and>
               \<bar>p - 100 * real k / real n\<bar> \<le> real k * (1102 * e) \<and> p \<le> 100 \<and>
               (k < n \<longrightarrow> p < 100)" if "k \<le> n" for k
    using rounded_ticks_progress[OF a c assms(3,4,5,6) that] by (auto simp: s0)
  note credit = rounded_ticks_credit[OF assms, of now]
  have pub: "activeVideo (published ct s) = None"
    "views (gameState (published ct s)) =
       views (gameState s)
         + baseViews ct * (1 + getPassiveViews (gameState s) * 0.1)
             * (if isViral s then 3 else 1)"
    "length (notifications (published ct s)) = length (notifications s) + 1"
    by (simp_all add: published_def Let_def)
  from before credit pub show ?thesis by blast
qed

theorem production_run_credits_once_after_duration_witness:
  "activeVideo freshApp = None \<and>
   find_first (\<lambda>c. content_id c = content_id vlog) [vlog, podcast] = Some vlog \<and>
   (0::nat) < 600 \<and> duration vlog = real 600 / 10 \<and> baseViews vlog = 100 \<and>
   1102 * (1 / 2 ^ 41) * real 600 * real (600 + 1) \<le> (100::real) \<and>
   activeVideo ((productionTick_rounded round_to_grid [vlog, podcast] ^^ 600)
                  (startVideo ''vlog'' 0 freshApp)) \<noteq> None \<and>
   views (gameState ((productionTick_rounded round_to_grid [vlog, podcast] ^^ 600)
                       (startVideo ''vlog'' 0 freshApp))) = 0 \<and>
   (productionTick_rounded round_to_grid [vlog, podcast] ^^ 602) (startVideo ''vlog'' 0 freshApp) =
     (idleApp ((emptyGame [cameraUpgrade])
                 \<lparr> views := 100, subscribers := 5, money := 5, totalViews := 100,
                   totalMoney := 5 \<rparr>))
       \<lparr> notifications := [\<lparr> notification_id = 0, notification_text = VideoPublished False 100 \<rparr>],
         nextNotificationId := 1 \<rparr> \<and>
   (productionTick_rounded (\<lambda>x. x) [vlog, podcast] ^^ 601) (startVideo ''vlog'' 0 freshApp) =
     (idleApp ((emptyGame [cameraUpgrade])
                 \<lparr> views := 100, subscribers := 5, money := 5, totalViews := 100,
                   totalMoney := 5 \<rparr>))
       \<lparr> notifications := [\<lparr> notification_id = 0, notification_text = VideoPublished False 100 \<rparr>],
         nextNotificationId := 1 \<rparr>"
proof -
  let ?CT = "[vlog, podcast]"
  let ?s0 = "startVideo ''vlog'' 0 freshApp"
  have i: "activeVideo freshApp = None" by (simp add: freshApp_def idleApp_def)
  have f: "find_first (\<lambda>c. content_id c = content_id vlog) ?CT = Some vlog"
    by simp
  have n: "(0::nat) < 600" by simp
  have d: "duration vlog = real 600 / 10" by (simp add: vlog_def)
  have b: "baseViews vlog = 100" by (simp add: vlog_def)
  have c: "content_id vlog = ''vlog''" by (simp add: vlog_def)
  have v0: "views (gameState freshApp) = 0"
    by (simp add: freshApp_def idleApp_def emptyGame_def defaultGameState_def)
  have Eg: "\<forall>x. \<bar>x\<bar> \<le> 256 \<longrightarrow> \<bar>round_to_grid x - x\<bar> \<le> 1 / 2 ^ 41"
    using round_to_grid_error by blast
  have Sg: "1102 * (1 / 2 ^ 41) * real 600 * real (600 + 1) \<le> (100::real)" by simp
  have Ei: "\<forall>x::real. \<bar>x\<bar> \<le> 256 \<longrightarrow> \<bar>(\<lambda>x. x) x - x\<bar> \<le> 0" by simp
  have Si: "1102 * 0 * real 600 * real (600 + 1) \<le> (100::real)" by simp
  note tg = production_run_credits_once_after_duration[OF i f n d Eg Sg, of 0]
  note ti = production_run_credits_once_after_duration[OF i f n d Ei Si, of 0]
  from tg obtain p where
    "(productionTick_rounded round_to_grid ?CT ^^ 600) (startVideo (content_id vlog) 0 freshApp) =
       freshApp\<lparr> activeVideo :=
          Some \<lparr> video_id = content_id vlog, progress = p, startTime = 0 \<rparr> \<rparr>"
    by blast
  then have g600: "activeVideo ((productionTick_rounded round_to_grid ?CT ^^ 600) ?s0) \<noteq> None"
    "views (gameState ((productionTick_rounded round_to_grid ?CT ^^ 600) ?s0)) = 0"
    by (simp_all add: c v0)
  from tg obtain m where m: "m = 600 + 1 \<or> m = 600 + 2"
    and mg: "\<forall>k\<ge>m. (productionTick_rounded round_to_grid ?CT ^^ k)
                (startVideo (content_id vlog) 0 freshApp) = published vlog freshApp"
    by blast
  from m have "m \<le> 602" by auto
  with mg have g602: "(productionTick_rounded round_to_grid ?CT ^^ 602) ?s0 = published vlog freshApp"
    by (simp add: c)
  from ti obtain m' where m': "(\<forall>x::real. (\<lambda>x. x) x = x) \<longrightarrow> m' = 600 + 1"
    and mi: "\<forall>k\<ge>m'. (productionTick_rounded (\<lambda>x. x) ?CT ^^ k)
                (startVideo (content_id vlog) 0 freshApp) = published vlog freshApp"
    by blast
  from m' have "m' = 601" by simp
  with mi have i601: "(productionTick_rounded (\<lambda>x. x) ?CT ^^ 601) ?s0 = published vlog freshApp"
    by (simp add: c)
  show ?thesis
    using i f n d b Sg g600 g602 i601 unfolding published_vlog_freshApp by simp
qed

theorem no_credit_after_duration_counterexample:
  "duration vlog = 600 * 0.1 \<and> baseViews vlog = 100 \<and>
   activeVideo ((productionTick [vlog, podcast] ^^ 600) (startVideo ''vlog'' 0 freshApp)) \<noteq> None \<and>
   views (gameState ((productionTick [vlog, podcast] ^^ 600) (startVideo ''vlog'' 0 freshApp))) = 0 \<and>
   notifications ((productionTick [vlog, podcast] ^^ 600) (startVideo ''vlog'' 0 freshApp)) = []"
proof -
  let ?av = "\<lparr> video_id = ''vlog'', progress = 0, startTime = 0 \<rparr>"
  let ?s0 = "startVideo ''vlog'' 0 freshApp"
  have s0: "?s0 = freshApp\<lparr> activeVideo := Some ?av \<rparr>"
    by (simp add: startVideo_def freshApp_def idleApp_def)
  have a: "activeVideo ?s0 = Some ?av" "progress ?av = 0" by (simp_all add: s0)
  have f: "find_first (\<lambda>c. content_id c = video_id ?av) [vlog, podcast] = Some vlog"
    by (simp add: vlog_def)
  have n: "(0::nat) < 600" by simp
  have d: "duration vlog = real 600 / 10" by (simp add: vlog_def)
  have "(productionTick [vlog, podcast] ^^ 600) ?s0 =
      ?s0\<lparr> activeVideo := Some (?av\<lparr> progress := 100 * real 600 / real 600 \<rparr>) \<rparr>"
    by (rule ticks_progress[OF a f n d]) simp
  then have "(productionTick [vlog, podcast] ^^ 600) ?s0 =
      freshApp\<lparr> activeVideo := Some (?av\<lparr> progress := 100 \<rparr>) \<rparr>"
    by (simp add: s0)
  then show ?thesis
    by (simp add: vlog_def) (simp add: freshApp_def idleApp_def emptyGame_def defaultGameState_def)
qed

section \<open>C8: what a purchase returns\<close>

text \<open>
  C8, as amended. \<open>buyUpgrade\<close> returns no value. For an id carried by an upgrade of
  the list it does not throw and yields a state, and whether the purchase succeeded shows
  in that state only: it differs from the state before exactly when the money covered the
  cost of the first upgrade with that id.
\<close>

theorem buyUpgrade_known_id_yields_state:
  assumes "\<exists>u\<in>set (upgrades (gameState s)). upgrade_id u = uid"
  shows "\<exists>s' i. buyUpgrade uid s = Inr s' \<and>
           findIndex (\<lambda>u. upgrade_id u = uid) (upgrades (gameState s)) = Some i \<and>
           (s' \<noteq> s \<longleftrightarrow>
              money (gameState s) \<ge> real_of_int (upgradeCost (upgrades (gameState s) ! i)))"
proof -
  from assms obtain i
    where i: "findIndex (\<lambda>u. upgrade_id u = uid) (upgrades (gameState s)) = Some i"
    by (rule findIndex_known)
  note fi = findIndex_Some[OF i]
  let ?us = "upgrades (gameState s)"
  show ?thesis
  proof (cases "money (gameState s) \<ge> real_of_int (upgradeCost (?us ! i))")
    case False
    then show ?thesis by (simp add: buyUpgrade_def i Let_def)
  next
    case True
    let ?s' = "s\<lparr> gameState := (gameState s)
                \<lparr> money := money (gameState s) - real_of_int (upgradeCost (?us ! i)),
                  upgrades := ?us[i := (?us ! i)\<lparr> level := level (?us ! i) + 1 \<rparr>] \<rparr> \<rparr>"
    have b: "buyUpgrade uid s = Inr ?s'" using True by (simp add: buyUpgrade_def i Let_def)
    have "level (upgrades (gameState ?s') ! i) = level (?us ! i) + 1" using fi by simp
    then have "level (upgrades (gameState ?s') ! i) \<noteq> level (?us ! i)" by simp
    then have "?s' \<noteq> s" by metis
    with b True i show ?thesis by simp
  qed
qed

theorem buyUpgrade_known_id_yields_state_witness:
  "cameraUpgrade \<in> set (upgrades (gameState richApp)) \<and> upgrade_id cameraUpgrade = ''camera'' \<and>
   buyUpgrade ''camera'' richApp \<noteq> Inl TypeError \<and>
   buyUpgrade ''camera'' richApp \<noteq> Inr richApp"
proof -
  have c: "upgradeCost cameraUpgrade = 10"
    by (simp add: upgradeCost_def cameraUpgrade_def)
  have u: "upgrade_id cameraUpgrade = ''camera''" by (simp add: cameraUpgrade_def)
  have ur: "upgrades (gameState richApp) = [cameraUpgrade]" "money (gameState richApp) = 25"
    by (simp_all add: richApp_def idleApp_def emptyGame_def defaultGameState_def)
  have h: "\<exists>u\<in>set (upgrades (gameState richApp)). upgrade_id u = ''camera''"
    by (simp add: ur u)
  have fi: "findIndex (\<lambda>u. upgrade_id u = ''camera'') (upgrades (gameState richApp)) = Some 0"
    by (simp add: ur u)
  from buyUpgrade_known_id_yields_state[OF h] obtain s' i where
    s': "buyUpgrade ''camera'' richApp = Inr s'"
    and i: "findIndex (\<lambda>u. upgrade_id u = ''camera'') (upgrades (gameState richApp)) = Some i"
    and d: "s' \<noteq> richApp \<longleftrightarrow>
      money (gameState richApp) \<ge> real_of_int (upgradeCost (upgrades (gameState richApp) ! i))"
    by blast
  from i fi have "i = 0" by simp
  with d have "s' \<noteq> richApp" by (simp add: ur c)
  with s' show ?thesis by (simp add: ur u)
qed

theorem buyUpgrade_unknown_id_counterexample:
  "buyUpgrade ''drone'' richApp = Inl TypeError"
  by (simp add: buyUpgrade_def richApp_def idleApp_def emptyGame_def defaultGameState_def
        cameraUpgrade_def)

section \<open>C9: loading the saved state\<close>

text \<open>
  C9, as amended. When nothing is saved, or the saved text is empty, or the parser rejects
  it, the initializer returns the fixed initial state: no views, no subscribers, no
  money, the initial upgrade list (every level 0 when the catalog's levels are 0) and the
  single unlocked content id \<open>vlog\<close>; the parser's exception is caught. Saved text
  that parses is not checked: whatever value the parser returns is handed on as the
  state.
\<close>

theorem load_falls_back_when_absent_or_unparseable:
  "((saved = None \<or> saved = Some [] \<or> (\<exists>str. saved = Some str \<and> JSON_parse str = None)) \<longrightarrow>
      initialGameState JSON_parse INITIAL_UPGRADES now saved
        = Initial (defaultGameState INITIAL_UPGRADES now)) \<and>
   (\<forall>str v. saved = Some str \<and> str \<noteq> [] \<and> JSON_parse str = Some v \<longrightarrow>
      initialGameState JSON_parse INITIAL_UPGRADES now saved = Parsed v) \<and>
   views (defaultGameState INITIAL_UPGRADES now) = 0 \<and>
   subscribers (defaultGameState INITIAL_UPGRADES now) = 0 \<and>
   money (defaultGameState INITIAL_UPGRADES now) = 0 \<and>
   upgrades (defaultGameState INITIAL_UPGRADES now) = INITIAL_UPGRADES \<and>
   ((\<forall>u\<in>set INITIAL_UPGRADES. level u = 0) \<longrightarrow>
      (\<forall>u\<in>set (upgrades (defaultGameState INITIAL_UPGRADES now)). level u = 0)) \<and>
   unlockedContentTypes (defaultGameState INITIAL_UPGRADES now) = [''vlog'']"
proof -
  have fallback: "initialGameState JSON_parse INITIAL_UPGRADES now saved
      = Initial (defaultGameState INITIAL_UPGRADES now)"
    if "saved = None \<or> saved = Some [] \<or> (\<exists>str. saved = Some str \<and> JSON_parse str = None)"
    using that by (auto simp: initialGameState_def)
  have kept: "initialGameState JSON_parse INITIAL_UPGRADES now saved = Parsed v"
    if "saved = Some str \<and> str \<noteq> [] \<and> JSON_parse str = Some v" for str v
    using that by (simp add: initialGameState_def)
  have fields: "views (defaultGameState INITIAL_UPGRADES now) = 0"
    "subscribers (defaultGameState INITIAL_UPGRADES now) = 0"
    "money (defaultGameState INITIAL_UPGRADES now) = 0"
    "upgrades (defaultGameState INITIAL_UPGRADES now) = INITIAL_UPGRADES"
    "unlockedContentTypes (defaultGameState INITIAL_UPGRADES now) = [''vlog'']"
    by (simp_all add: defaultGameState_def)
  from fallback kept fields show ?thesis by simp
qed

theorem load_falls_back_when_absent_or_unparseable_witness:
  "literalParse ''{views:'' = None \<and> literalParse ''{}'' = Some (JObject []) \<and>
   level cameraUpgrade = 0 \<and> level cheapUpgrade = 0 \<and>
   initialGameState literalParse [cameraUpgrade, cheapUpgrade] 42 (Some ''{views:'')
     = Initial \<lparr> views = 0, subscribers = 0, money = 0, totalViews = 0, totalMoney = 0,
         upgrades = [cameraUpgrade, cheapUpgrade], unlockedContentTypes = [''vlog''],
         lastSaved = 42 \<rparr> \<and>
   initialGameState literalParse [cameraUpgrade, cheapUpgrade] 42 None
     = Initial \<lparr> views = 0, subscribers = 0, money = 0, totalViews = 0, totalMoney = 0,
         upgrades = [cameraUpgrade, cheapUpgrade], unlockedContentTypes = [''vlog''],
         lastSaved = 42 \<rparr> \<and>
   initialGameState literalParse [cameraUpgrade, cheapUpgrade] 42 (Some ''{}'')
     = Parsed (JObject []) \<and>
   level (hd (upgrades (defaultGameState [cameraUpgrade, cheapUpgrade] 42))) = 0"
proof -
  let ?U = "[cameraUpgrade, cheapUpgrade]"
  have p: "literalParse ''{views:'' = None" by (simp add: literalParse_def)
  have q: "literalParse ''{}'' = Some (JObject [])" by (simp add: literalParse_def)
  have l: "\<forall>u\<in>set ?U. level u = 0"
    by (simp add: cameraUpgrade_def cheapUpgrade_def)
  have h1: "Some ''{views:'' = None \<or> Some ''{views:'' = Some [] \<or>
      (\<exists>str. Some ''{views:'' = Some str \<and> literalParse str = None)"
    using p by simp
  have h2: "(None :: string option) = None \<or> None = Some [] \<or>
      (\<exists>str. None = Some str \<and> literalParse str = None)"
    by simp
  have h3: "Some ''{}'' = Some ''{}'' \<and> ''{}'' \<noteq> [] \<and> literalParse ''{}'' = Some (JObject [])"
    using q by simp
  note t = load_falls_back_when_absent_or_unparseable
  from t[where saved = "Some ''{views:''" and JSON_parse = literalParse
           and INITIAL_UPGRADES = ?U and now = 42] h1
  have 1: "initialGameState literalParse ?U 42 (Some ''{views:'')
      = Initial (defaultGameState ?U 42)" by blast
  from t[where saved = None and JSON_parse = literalParse and INITIAL_UPGRADES = ?U and now = 42] h2
  have 2: "initialGameState literalParse ?U 42 None = Initial (defaultGameState ?U 42)" by blast
  from t[where saved = "Some ''{}''" and JSON_parse = literalParse
           and INITIAL_UPGRADES = ?U and now = 42] h3
  have 3: "initialGameState literalParse ?U 42 (Some ''{}'') = Parsed (JObject [])" by blast
  from t[where INITIAL_UPGRADES = ?U and now = 42] l
  have 4: "\<forall>u\<in>set (upgrades (defaultGameState ?U 42)). level u = 0" by blast
  have 5: "level (hd (upgrades (defaultGameState ?U 42))) = 0"
    using 4 by (simp add: defaultGameState_def)
  from p q l 1 2 3 5 show ?thesis by (simp add: defaultGameState_def)
qed

theorem load_keeps_parsed_null_counterexample:
  "literalParse ''null'' = Some JNull \<and>
   initialGameState literalParse [cameraUpgrade] 42 (Some ''null'') = Parsed JNull \<and>
   initialGameState literalParse [cameraUpgrade] 42 (Some ''null'')
     \<noteq> Initial (defaultGameState [cameraUpgrade] 42)"
  by (simp add: initialGameState_def literalParse_def)

section \<open>C10: what the score update answers\<close>




end
